theory Spec2Isabelle
  imports Main "HOL-Library.Word"
begin

unbundle bit_operations_syntax

section \<open>Data model of daemon.c\<close>

text \<open>
  The daemon keeps its state in file-scope variables and talks to collaborators that live
  in other translation units (the virtual keyboard, the keyboard interpreter, the
  configuration parser, the device layer, the operating system). The embedding passes the
  globals around as one record, \<open>state\<close>, and logs every call into a collaborator in the
  field \<open>trace\<close>, in call order. What a collaborator answers is read from the record
  \<open>world\<close>: each answer is a function of the calls made so far, so a collaborator may
  answer differently on every call and every theorem below holds for all of them.
  Diagnostics on stdout and stderr (\<open>printf\<close>, \<open>warn\<close>, \<open>perror\<close>) are not logged.
  Pointers to keyboards and to devices are numbers; the device objects live in the field
  \<open>heap\<close>, so that the device table, the events and \<open>manage_device\<close> share them.
  Memory allocation is taken to succeed.
\<close>

type_synonym kbd_ptr = nat
type_synonym dev_ptr = nat
type_synonym fd = int

text \<open>\<open>struct config_ent\<close>; the \<open>next\<close> pointer is the tail of a HOL list.\<close>

record 'cfg config_ent =
  config :: 'cfg
  kbd :: kbd_ptr

text \<open>
  \<open>struct device\<close>, the fields daemon.c reads or writes. \<open>data\<close> is the opaque
  association to a keyboard, \<open>None\<close> for the null pointer.
\<close>

record device =
  vendor_id :: "16 word"
  product_id :: "16 word"
  capabilities :: "8 word"
  name :: string
  data :: "kbd_ptr option"

datatype ipc_type = IPC_SUCCESS | IPC_FAIL | IPC_BIND | IPC_RELOAD | IPC_LAYER_LISTEN | IPC_OTHER

record ipc_message =
  msg_type :: ipc_type
  msg_sz :: "32 word"
  msg_data :: string

datatype d_type = DT_DIR | DT_REG | DT_OTHER

record dirent =
  d_type :: d_type
  d_name :: string

datatype device_event =
    DEV_KEY "8 word" "8 word"
  | DEV_MOUSE_MOVE int int
  | DEV_MOUSE_MOVE_ABS int int
  | DEV_MOUSE_SCROLL int int
  | DEV_OTHER

datatype event =
    EV_TIMEOUT
  | EV_DEV_EVENT dev_ptr device_event int
  | EV_DEV_ADD dev_ptr
  | EV_DEV_REMOVE dev_ptr
  | EV_FD_ACTIVITY fd
  | EV_OTHER

text \<open>The calls into collaborators, as they appear in the trace, with their results.\<close>

datatype call =
    Vkbd_send_key "8 word" "8 word"
  | Vkbd_mouse_move int int
  | Vkbd_mouse_move_abs int int
  | Vkbd_mouse_scroll int int
  | Kbd_process_key_event kbd_ptr "8 word" "8 word"
  | Kbd_eval kbd_ptr string int
  | Free_kbd kbd_ptr
  | Opendir
  | Closedir
  | Config_parse string
  | New_keyboard kbd_ptr
  | Device_grab dev_ptr int
  | Device_ungrab dev_ptr
  | Write fd string nat int
  | Close fd
  | Setsockopt fd
  | Xwrite_str fd string
  | Xwrite_msg fd ipc_message
  | Xread fd ipc_message
  | Accept int

text \<open>What a keyboard does while it processes a key event: it calls back into the daemon.\<close>

datatype callback = Emit_key "8 word" "8 word" | Layer_change string int

text \<open>The ways the process ends inside the daemon: \<open>exit\<close>, \<open>die\<close>, a failed \<open>assert\<close>.\<close>

datatype fatal = Exit int | Die string | Assertion_failed

text \<open>
  The collaborators and the constants of keyd.h, which is not among the sources: they are
  parameters. \<open>readdir_all\<close> is \<open>opendir\<close> (\<open>None\<close> when it fails) followed by the
  entries \<open>readdir\<close> yields; \<open>kbd_process_key_event\<close> answers with the callbacks the
  keyboard makes during the call and the delay it returns; \<open>kbd_eval\<close> answers with
  its return value and the content of \<open>errstr\<close> after the call.
\<close>

record 'cfg world =
  MAX_DEVICES :: nat
  MAX_LAYER_NAME_LEN :: nat
  MAX_IPC_MESSAGE_SIZE :: nat
  KEYD_EXTERNAL_MOUSE_BUTTON :: "8 word"
  CONFIG_DIR :: string
  config_check_match :: "'cfg \<Rightarrow> 32 word \<Rightarrow> int"
  readdir_all :: "call list \<Rightarrow> dirent list option"
  config_parse :: "call list \<Rightarrow> string \<Rightarrow> 'cfg option"
  new_keyboard :: "call list \<Rightarrow> 'cfg \<Rightarrow> kbd_ptr"
  device_grab :: "call list \<Rightarrow> dev_ptr \<Rightarrow> int"
  kbd_process_key_event :: "call list \<Rightarrow> kbd_ptr \<Rightarrow> 8 word \<Rightarrow> 8 word \<Rightarrow> callback list \<times> int"
  kbd_eval :: "call list \<Rightarrow> kbd_ptr \<Rightarrow> string \<Rightarrow> int \<times> string"
  sys_write :: "call list \<Rightarrow> fd \<Rightarrow> string \<Rightarrow> nat \<Rightarrow> int"
  accept :: "call list \<Rightarrow> int"
  xread :: "call list \<Rightarrow> fd \<Rightarrow> ipc_message"

text \<open>
  The globals of daemon.c (\<open>nr_devices\<close> and \<open>nr_listeners\<close> are the lengths of the
  lists), the static \<open>last_kbd\<close> of \<open>event_handler\<close>, the \<open>errstr\<close> of the keyboard
  module, the device objects the table points to, and the trace.
\<close>

record 'cfg state =
  ipcfd :: int
  configs :: "'cfg config_ent list"
  devices :: "dev_ptr list"
  keystate :: "8 word \<Rightarrow> 8 word"
  listeners :: "fd list"
  last_kbd :: "kbd_ptr option"
  errstr :: string
  heap :: "dev_ptr \<Rightarrow> device"
  trace :: "call list"

definition VKBD_NAME :: string where
  "VKBD_NAME = ''keyd virtual keyboard''"

text \<open>
  Modelled from the spec: the capability bits of keyd.h, which is not among the sources.
  The spec names three capabilities (keyboard, mouse-relative, mouse-absolute); they are
  three distinct bits of the capability mask.
\<close>

definition CAP_MOUSE :: "8 word" where
  "CAP_MOUSE = 1"

definition CAP_MOUSE_ABS :: "8 word" where
  "CAP_MOUSE_ABS = 2"

definition CAP_KEYBOARD :: "8 word" where
  "CAP_KEYBOARD = 4"

definition log :: "call \<Rightarrow> 'cfg state \<Rightarrow> 'cfg state" where
  "log c s = s\<lparr>trace := trace s @ [c]\<rparr>"

section \<open>The functions of daemon.c\<close>

fun free_configs_loop :: "'cfg config_ent list \<Rightarrow> 'cfg state \<Rightarrow> 'cfg state" where
  "free_configs_loop [] s = s"
| "free_configs_loop (ent # rest) s = free_configs_loop rest (log (Free_kbd (kbd ent)) s)"

definition free_configs :: "'cfg state \<Rightarrow> 'cfg state" where
  "free_configs s = (free_configs_loop (configs s) s)\<lparr>configs := []\<rparr>"

text \<open>\<open>clear_vkbd\<close>: the loop over the codes 0 to 255.\<close>

function clear_vkbd_loop :: "nat \<Rightarrow> 'cfg state \<Rightarrow> 'cfg state" where
  "clear_vkbd_loop i s =
     (if i < 256 then
        clear_vkbd_loop (i + 1)
          (if keystate s (of_nat i) \<noteq> 0
           then (log (Vkbd_send_key (of_nat i) 0) s)\<lparr>keystate := (keystate s)(of_nat i := 0)\<rparr>
           else s)
      else s)"
  by pat_completeness auto
termination
  by (relation "measure (\<lambda>(i, s). 256 - i)") auto

declare clear_vkbd_loop.simps [simp del]

definition clear_vkbd :: "'cfg state \<Rightarrow> 'cfg state" where
  "clear_vkbd s = clear_vkbd_loop 0 s"

text \<open>\<open>send_key\<close> is the callback through which a keyboard emits a key.\<close>

definition send_key :: "8 word \<Rightarrow> 8 word \<Rightarrow> 'cfg state \<Rightarrow> 'cfg state" where
  "send_key code st s = log (Vkbd_send_key code st) (s\<lparr>keystate := (keystate s)(code := st)\<rparr>)"

text \<open>\<open>add_listener\<close>; \<open>sizeof s\<close> counts the terminator of the rejection line.\<close>

definition add_listener :: "fd \<Rightarrow> 'cfg state \<Rightarrow> 'cfg state" where
  "add_listener con s =
     (if length (listeners s) = 32
      then log (Close con) (log (Xwrite_str con (''Max listeners exceeded\<newline>'' @ [CHR 0x00])) s)
      else (log (Setsockopt con) s)\<lparr>listeners := listeners s @ [con]\<rparr>)"

text \<open>
  \<open>layer_observer\<close>: \<open>snprintf\<close> cuts the line to the buffer (\<open>MAX_LAYER_NAME_LEN + 1\<close>
  characters before the terminator) and returns the length of the whole line, which is
  the count handed to \<open>write\<close>.
\<close>

fun layer_observer_loop ::
  "'cfg world \<Rightarrow> string \<Rightarrow> nat \<Rightarrow> fd list \<Rightarrow> fd list \<Rightarrow> 'cfg state \<Rightarrow> fd list \<times> 'cfg state" where
  "layer_observer_loop w buf bufsz [] keep s = (keep, s)"
| "layer_observer_loop w buf bufsz (l # ls) keep s =
     (let nw = sys_write w (trace s) l buf bufsz;
          s1 = log (Write l buf bufsz nw) s
      in if nw = int bufsz
         then layer_observer_loop w buf bufsz ls (keep @ [l]) s1
         else layer_observer_loop w buf bufsz ls keep (log (Close l) s1))"

definition layer_observer :: "'cfg world \<Rightarrow> string \<Rightarrow> int \<Rightarrow> 'cfg state \<Rightarrow> 'cfg state" where
  "layer_observer w nm st s =
     (if listeners s = [] then s
      else
        let line = (if st \<noteq> 0 then CHR ''+'' else CHR ''-'') # nm @ ''\<newline>'';
            buf = take (MAX_LAYER_NAME_LEN w + 1) line;
            bufsz = length line;
            (keep, s1) = layer_observer_loop w buf bufsz (listeners s) [] s
        in if length keep \<noteq> length (listeners s) then s1\<lparr>listeners := keep\<rparr> else s1)"

text \<open>
  \<open>load_configs\<close>: \<open>path\<close> holds at most 1023 characters of the joined name and
  \<open>len\<close> is the length of the whole joined name. A parse failure ends the process.
\<close>

fun load_configs_loop :: "'cfg world \<Rightarrow> dirent list \<Rightarrow> 'cfg state \<Rightarrow> fatal + 'cfg state" where
  "load_configs_loop w [] s = Inr s"
| "load_configs_loop w (d # ds) s =
     (if d_type d = DT_DIR then load_configs_loop w ds s
      else
        let full = CONFIG_DIR w @ ''/'' @ d_name d;
            len = length full;
            path = take 1023 full
        in if len \<ge> 5 \<and> drop (len - 5) path = ''.conf''
           then (case config_parse w (trace s) path of
                   None \<Rightarrow> Inl (Die (''failed to parse '' @ path))
                 | Some c \<Rightarrow>
                     let s1 = log (Config_parse path) s;
                         k = new_keyboard w (trace s1) c;
                         s2 = log (New_keyboard k) s1
                     in load_configs_loop w ds (s2\<lparr>configs := \<lparr>config = c, kbd = k\<rparr> # configs s2\<rparr>))
           else load_configs_loop w ds s)"

definition load_configs :: "'cfg world \<Rightarrow> 'cfg state \<Rightarrow> fatal + 'cfg state" where
  "load_configs w s =
     (case readdir_all w (trace s) of
        None \<Rightarrow> Inl (Exit (- 1))
      | Some ds \<Rightarrow>
          (case load_configs_loop w ds ((log Opendir s)\<lparr>configs := []\<rparr>) of
             Inl e \<Rightarrow> Inl e
           | Inr s1 \<Rightarrow> Inr (log Closedir s1)))"

text \<open>
  \<open>lookup_config_ent\<close> returns the rank and, through \<open>*match\<close>, the entry (\<open>None\<close> for
  the null pointer). \<open>config_check_match\<close> is a function of the configuration and the id.
\<close>

fun lookup_config_ent_loop ::
  "'cfg world \<Rightarrow> 32 word \<Rightarrow> 'cfg config_ent list \<Rightarrow> int \<Rightarrow> 'cfg config_ent option
     \<Rightarrow> int \<times> 'cfg config_ent option" where
  "lookup_config_ent_loop w ident [] rank match = (rank, match)"
| "lookup_config_ent_loop w ident (ent # rest) rank match =
     (let r = config_check_match w (config ent) ident
      in if r > rank then lookup_config_ent_loop w ident rest r (Some ent)
         else lookup_config_ent_loop w ident rest rank match)"

definition lookup_config_ent ::
  "'cfg world \<Rightarrow> 'cfg config_ent list \<Rightarrow> 32 word \<Rightarrow> int \<times> 'cfg config_ent option" where
  "lookup_config_ent w cs ident = lookup_config_ent_loop w ident cs 0 None"

definition set_data :: "dev_ptr \<Rightarrow> kbd_ptr option \<Rightarrow> 'cfg state \<Rightarrow> 'cfg state" where
  "set_data dev k s = s\<lparr>heap := (heap s)(dev := (heap s dev)\<lparr>data := k\<rparr>)\<rparr>"

text \<open>\<open>dev->vendor_id << 16 | dev->product_id\<close>, converted to \<open>uint32_t\<close>.\<close>

definition device_id :: "device \<Rightarrow> 32 word" where
  "device_id d = push_bit 16 (ucast (vendor_id d)) OR ucast (product_id d)"

text \<open>
  \<open>manage_device\<close>. A match other than 0 comes with an entry (lemma
  \<open>lookup_config_ent_match\<close> below), so \<open>ent->kbd\<close> is read from an entry.
\<close>

definition manage_device :: "'cfg world \<Rightarrow> dev_ptr \<Rightarrow> 'cfg state \<Rightarrow> 'cfg state" where
  "manage_device w dev s =
     (let d = heap s dev;
          (match, ent) = lookup_config_ent w (configs s) (device_id d)
      in if (match \<noteq> 0 \<and> capabilities d AND CAP_KEYBOARD \<noteq> 0) \<or>
            (match = 2 \<and> capabilities d AND (CAP_MOUSE OR CAP_MOUSE_ABS) \<noteq> 0)
         then
           let g = device_grab w (trace s) dev;
               s1 = log (Device_grab dev g) s
           in if g \<noteq> 0 then set_data dev None s1
              else set_data dev (map_option kbd ent) s1
         else log (Device_ungrab dev) (set_data dev None s))"

text \<open>
  \<open>reload\<close>. The loop over the device table is a fold over the table as it is after the
  load: \<open>manage_device\<close> does not change the table.
\<close>

definition reload :: "'cfg world \<Rightarrow> 'cfg state \<Rightarrow> fatal + 'cfg state" where
  "reload w s =
     (case load_configs w (free_configs s) of
        Inl e \<Rightarrow> Inl e
      | Inr s1 \<Rightarrow> Inr (clear_vkbd (fold (manage_device w) (devices s1) s1)))"

text \<open>
  \<open>send_success\<close> and \<open>send_fail\<close>: \<open>msg_data\<close> is the C string the message carries;
  \<open>vsnprintf\<close> cuts it to the size of the data field and returns the whole length.
\<close>

definition send_success :: "fd \<Rightarrow> 'cfg state \<Rightarrow> 'cfg state" where
  "send_success con s =
     log (Close con)
       (log (Xwrite_msg con \<lparr>msg_type = IPC_SUCCESS, msg_sz = 7, msg_data = ''Success''\<rparr>) s)"

definition send_fail :: "'cfg world \<Rightarrow> fd \<Rightarrow> string \<Rightarrow> 'cfg state \<Rightarrow> 'cfg state" where
  "send_fail w con str s =
     log (Close con)
       (log (Xwrite_msg con
              \<lparr>msg_type = IPC_FAIL, msg_sz = of_nat (length str),
               msg_data = take (MAX_IPC_MESSAGE_SIZE w - 1) str\<rparr>) s)"

fun bind_loop ::
  "'cfg world \<Rightarrow> string \<Rightarrow> 'cfg config_ent list \<Rightarrow> bool \<Rightarrow> 'cfg state \<Rightarrow> bool \<times> 'cfg state" where
  "bind_loop w expr [] success s = (success, s)"
| "bind_loop w expr (ent # rest) success s =
     (let (r, err) = kbd_eval w (trace s) (kbd ent) expr;
          s1 = (log (Kbd_eval (kbd ent) expr r) s)\<lparr>errstr := err\<rparr>
      in bind_loop w expr rest (if r = 0 then True else success) s1)"

definition handle_client :: "'cfg world \<Rightarrow> fd \<Rightarrow> 'cfg state \<Rightarrow> fatal + 'cfg state" where
  "handle_client w con s =
     (let msg = xread w (trace s) con;
          s0 = log (Xread con msg) s
      in case msg_type msg of
           IPC_RELOAD \<Rightarrow>
             (case reload w s0 of Inl e \<Rightarrow> Inl e | Inr s1 \<Rightarrow> Inr (send_success con s1))
         | IPC_LAYER_LISTEN \<Rightarrow> Inr (add_listener con s0)
         | IPC_BIND \<Rightarrow>
             (let (success, s1) = bind_loop w (msg_data msg) (configs s0) False s0
              in Inr (if success then send_success con s1 else send_fail w con (errstr s1) s1))
         | _ \<Rightarrow> Inr (send_fail w con ''Unknown command'' s0))"

text \<open>\<open>remove_device\<close> compacts the table in place, which keeps the other pointers in order.\<close>

definition remove_device :: "dev_ptr \<Rightarrow> 'cfg state \<Rightarrow> 'cfg state" where
  "remove_device dev s = s\<lparr>devices := filter (\<lambda>d. d \<noteq> dev) (devices s)\<rparr>"

text \<open>\<open>add_device\<close>, with the assertion compiled in: its failure ends the process.\<close>

definition add_device :: "'cfg world \<Rightarrow> dev_ptr \<Rightarrow> 'cfg state \<Rightarrow> fatal + 'cfg state" where
  "add_device w dev s =
     (if length (devices s) < MAX_DEVICES w
      then Inr (manage_device w dev (s\<lparr>devices := devices s @ [dev]\<rparr>))
      else Inl Assertion_failed)"

text \<open>
  A call of \<open>kbd_process_key_event\<close>: the keyboard calls \<open>send_key\<close> and
  \<open>layer_observer\<close> through the pointers \<open>new_keyboard\<close> was given, then returns a delay.
\<close>

fun run_callback :: "'cfg world \<Rightarrow> callback \<Rightarrow> 'cfg state \<Rightarrow> 'cfg state" where
  "run_callback w (Emit_key code st) s = send_key code st s"
| "run_callback w (Layer_change nm st) s = layer_observer w nm st s"

definition call_kbd_process_key_event ::
  "'cfg world \<Rightarrow> kbd_ptr \<Rightarrow> 8 word \<Rightarrow> 8 word \<Rightarrow> 'cfg state \<Rightarrow> int \<times> 'cfg state" where
  "call_kbd_process_key_event w k code pressed s =
     (let (cbs, t) = kbd_process_key_event w (trace s) k code pressed
      in (t, fold (run_callback w) cbs (log (Kbd_process_key_event k code pressed) s)))"

text \<open>
  \<open>event_handler\<close> returns the delay and the new state, or ends the process. The event is
  a tagged union: \<open>EV_OTHER\<close> and \<open>DEV_OTHER\<close> stand for every type the switches do not
  name.
\<close>

definition event_handler :: "'cfg world \<Rightarrow> event \<Rightarrow> 'cfg state \<Rightarrow> fatal + int \<times> 'cfg state" where
  "event_handler w ev s =
     (case ev of
        EV_TIMEOUT \<Rightarrow>
          (case last_kbd s of
             None \<Rightarrow> Inr (0, s)
           | Some k \<Rightarrow> Inr (call_kbd_process_key_event w k 0 0 s))
      | EV_DEV_EVENT dev devev timeleft \<Rightarrow>
          (case data (heap s dev) of
             None \<Rightarrow> Inr (timeleft, s)
           | Some k \<Rightarrow>
               (let s0 = s\<lparr>last_kbd := Some k\<rparr>
                in case devev of
                     DEV_KEY code pressed \<Rightarrow> Inr (call_kbd_process_key_event w k code pressed s0)
                   | DEV_MOUSE_MOVE x y \<Rightarrow> Inr (timeleft, log (Vkbd_mouse_move x y) s0)
                   | DEV_MOUSE_MOVE_ABS x y \<Rightarrow> Inr (timeleft, log (Vkbd_mouse_move_abs x y) s0)
                   | DEV_MOUSE_SCROLL x y \<Rightarrow>
                       (let s2 =
                          (case last_kbd s0 of
                             None \<Rightarrow> s0
                           | Some lk \<Rightarrow>
                               (let s1 = snd (call_kbd_process_key_event w lk (KEYD_EXTERNAL_MOUSE_BUTTON w) 1 s0)
                                in snd (call_kbd_process_key_event w lk (KEYD_EXTERNAL_MOUSE_BUTTON w) 0 s1)))
                        in Inr (timeleft, log (Vkbd_mouse_scroll x y) s2))
                   | DEV_OTHER \<Rightarrow> Inr (timeleft, s0)))
      | EV_DEV_ADD dev \<Rightarrow>
          (if name (heap s dev) \<noteq> VKBD_NAME
           then (case add_device w dev s of Inl e \<Rightarrow> Inl e | Inr s1 \<Rightarrow> Inr (0, s1))
           else Inr (0, s))
      | EV_DEV_REMOVE dev \<Rightarrow> Inr (0, remove_device dev s)
      | EV_FD_ACTIVITY f \<Rightarrow>
          (if f = ipcfd s
           then (let con = accept w (trace s);
                     s0 = log (Accept con) s
                 in if con < 0 then Inl (Exit (- 1))
                    else (case handle_client w con s0 of Inl e \<Rightarrow> Inl e | Inr s1 \<Rightarrow> Inr (0, s1)))
           else Inr (0, s))
      | EV_OTHER \<Rightarrow> Inr (0, s))"

text \<open>The event loop hands the events to the handler one after the other.\<close>

fun dispatch :: "'cfg world \<Rightarrow> event list \<Rightarrow> 'cfg state \<Rightarrow> fatal + 'cfg state" where
  "dispatch w [] s = Inr s"
| "dispatch w (ev # evs) s =
     (case event_handler w ev s of Inl e \<Rightarrow> Inl e | Inr (t, s1) \<Rightarrow> dispatch w evs s1)"

section \<open>Definitions used to state the properties\<close>

text \<open>Any sequence of \<open>send_key\<close> calls, as the keyboards make them.\<close>

definition send_keys :: "(8 word \<times> 8 word) list \<Rightarrow> 'cfg state \<Rightarrow> 'cfg state" where
  "send_keys calls s = fold (\<lambda>(code, st). send_key code st) calls s"

text \<open>
  The releases of the codes from \<open>i\<close> on whose entry in the key state \<open>ks\<close> is not zero,
  in ascending order of the code.
\<close>

definition releases :: "(8 word \<Rightarrow> 8 word) \<Rightarrow> nat \<Rightarrow> call list" where
  "releases ks i =
     map (\<lambda>n. Vkbd_send_key (of_nat n) 0) (filter (\<lambda>n. ks (of_nat n) \<noteq> 0) [i..<256])"

text \<open>The rank the matcher of an entry gives a device id.\<close>

definition rank_of :: "'cfg world \<Rightarrow> 32 word \<Rightarrow> 'cfg config_ent \<Rightarrow> int" where
  "rank_of w ident ent = config_check_match w (config ent) ident"

text \<open>The greatest rank among the entries, and 0 when none is positive.\<close>

definition best_rank :: "'cfg world \<Rightarrow> 'cfg config_ent list \<Rightarrow> 32 word \<Rightarrow> int" where
  "best_rank w cs ident = Max (set (0 # map (rank_of w ident) cs))"

text \<open>The keyboards a trace creates, in the order of creation.\<close>

fun new_keyboards :: "call list \<Rightarrow> kbd_ptr list" where
  "new_keyboards [] = []"
| "new_keyboards (New_keyboard k # cs) = k # new_keyboards cs"
| "new_keyboards (c # cs) = new_keyboards cs"

text \<open>The calls \<open>load_configs\<close> makes for a configuration file.\<close>

definition is_parse_call :: "call \<Rightarrow> bool" where
  "is_parse_call c = (case c of Config_parse p \<Rightarrow> True | New_keyboard k \<Rightarrow> True | _ \<Rightarrow> False)"

text \<open>
  A concrete world and state, to run the functions on: a configuration is a table from
  device ids to ranks, and the directory holds three configuration files, a directory
  and a file that is no configuration.
\<close>

definition demo_check_match :: "(32 word \<times> int) list \<Rightarrow> 32 word \<Rightarrow> int" where
  "demo_check_match c ident = (case map_of c ident of None \<Rightarrow> 0 | Some r \<Rightarrow> r)"

definition demo_parse :: "string \<Rightarrow> (32 word \<times> int) list option" where
  "demo_parse p =
     (if p = ''/etc/keyd/a.conf'' then Some [(0x046DC52B, 1)]
      else if p = ''/etc/keyd/b.conf'' then Some [(0x046DC52B, 1), (0x00010002, 2)]
      else if p = ''/etc/keyd/c.conf'' then Some [(0x00030004, 1)]
      else None)"

definition demo_dir :: "dirent list" where
  "demo_dir =
     [\<lparr>d_type = DT_DIR, d_name = ''sub.conf''\<rparr>, \<lparr>d_type = DT_REG, d_name = ''a.conf''\<rparr>,
      \<lparr>d_type = DT_REG, d_name = ''notes''\<rparr>, \<lparr>d_type = DT_REG, d_name = ''b.conf''\<rparr>,
      \<lparr>d_type = DT_REG, d_name = ''c.conf''\<rparr>]"

definition demo_heap :: "dev_ptr \<Rightarrow> device" where
  "demo_heap p =
     (if p = 11 then \<lparr>vendor_id = 0x046D, product_id = 0xC52B, capabilities = 4, name = ''kbd'', data = None\<rparr>
      else if p = 12 then \<lparr>vendor_id = 1, product_id = 2, capabilities = 1, name = ''mouse'', data = None\<rparr>
      else if p = 13 then \<lparr>vendor_id = 0x046D, product_id = 0xC52B, capabilities = 1, name = ''pointer'', data = None\<rparr>
      else if p = 14 then \<lparr>vendor_id = 3, product_id = 4, capabilities = 4, name = ''kbd2'', data = None\<rparr>
      else \<lparr>vendor_id = 0, product_id = 0, capabilities = 0, name = VKBD_NAME, data = None\<rparr>)"

definition demo_world :: "(32 word \<times> int) list world" where
  "demo_world =
     \<lparr>MAX_DEVICES = 2, MAX_LAYER_NAME_LEN = 32, MAX_IPC_MESSAGE_SIZE = 16,
      KEYD_EXTERNAL_MOUSE_BUTTON = 249, CONFIG_DIR = ''/etc/keyd'',
      config_check_match = demo_check_match,
      readdir_all = (\<lambda>tr. Some demo_dir),
      config_parse = (\<lambda>tr. demo_parse),
      new_keyboard = (\<lambda>tr c. length tr),
      device_grab = (\<lambda>tr d. 0),
      kbd_process_key_event = (\<lambda>tr k code pressed. ([Emit_key code pressed], 0)),
      kbd_eval = (\<lambda>tr k e. if k = 2 then (0, []) else (- 1, ''no such key'')),
      sys_write = (\<lambda>tr f buf n. if f = 7 then - 1 else int n),
      accept = (\<lambda>tr. 9),
      xread = (\<lambda>tr f. \<lparr>msg_type = IPC_BIND, msg_sz = 3, msg_data = ''a=b''\<rparr>)\<rparr>"

definition demo_state :: "(32 word \<times> int) list state" where
  "demo_state =
     \<lparr>ipcfd = 3, configs = [], devices = [], keystate = (\<lambda>c. 0), listeners = [],
      last_kbd = None, errstr = [], heap = demo_heap, trace = []\<rparr>"

definition demo_registry :: "(32 word \<times> int) list config_ent list" where
  "demo_registry =
     [\<lparr>config = [(0x00030004, 1)], kbd = 6\<rparr>,
      \<lparr>config = [(0x046DC52B, 1), (0x00010002, 2)], kbd = 4\<rparr>,
      \<lparr>config = [(0x046DC52B, 1)], kbd = 2\<rparr>]"

definition demo_loaded :: "(32 word \<times> int) list state" where
  "demo_loaded =
     demo_state\<lparr>configs := demo_registry,
       trace := [Opendir, Config_parse ''/etc/keyd/a.conf'', New_keyboard 2,
                 Config_parse ''/etc/keyd/b.conf'', New_keyboard 4,
                 Config_parse ''/etc/keyd/c.conf'', New_keyboard 6, Closedir]\<rparr>"

text \<open>
  The condition of the specification for binding a device: the rank is at least 1 and the
  device has the keyboard capability, or the rank is exactly 2 and the device has a
  pointer capability.
\<close>

definition bind_condition :: "'cfg world \<Rightarrow> 'cfg state \<Rightarrow> dev_ptr \<Rightarrow> bool" where
  "bind_condition w s dev =
     (let rank = fst (lookup_config_ent w (configs s) (device_id (heap s dev)));
          caps = capabilities (heap s dev)
      in (rank \<ge> 1 \<and> caps AND CAP_KEYBOARD \<noteq> 0) \<or>
         (rank = 2 \<and> caps AND (CAP_MOUSE OR CAP_MOUSE_ABS) \<noteq> 0))"

text \<open>The concrete world, with a device layer that refuses every grab.\<close>

definition grab_fails_world :: "(32 word \<times> int) list world" where
  "grab_fails_world = demo_world\<lparr>device_grab := (\<lambda>tr d. - 1)\<rparr>"

text \<open>
  Readings of a trace: the \<open>write\<close> calls with their descriptor, buffer and count; the
  descriptors whose \<open>write\<close> returned the whole count; those whose \<open>write\<close> returned
  anything else; the descriptors closed.
\<close>

fun writes_of :: "call list \<Rightarrow> (fd \<times> string \<times> nat) list" where
  "writes_of [] = []"
| "writes_of (Write f buf n nw # cs) = (f, buf, n) # writes_of cs"
| "writes_of (c # cs) = writes_of cs"

fun full_writes :: "call list \<Rightarrow> fd list" where
  "full_writes [] = []"
| "full_writes (Write f buf n nw # cs) = (if nw = int n then f # full_writes cs else full_writes cs)"
| "full_writes (c # cs) = full_writes cs"

fun failed_writes :: "call list \<Rightarrow> fd list" where
  "failed_writes [] = []"
| "failed_writes (Write f buf n nw # cs) = (if nw = int n then failed_writes cs else f # failed_writes cs)"
| "failed_writes (c # cs) = failed_writes cs"

fun short_writes :: "call list \<Rightarrow> fd list" where
  "short_writes [] = []"
| "short_writes (Write f buf n nw # cs) = (if nw < int n then f # short_writes cs else short_writes cs)"
| "short_writes (c # cs) = short_writes cs"

fun closes :: "call list \<Rightarrow> fd list" where
  "closes [] = []"
| "closes (Close f # cs) = f # closes cs"
| "closes (c # cs) = closes cs"

text \<open>The concrete state with three listeners; the world refuses the writes to descriptor 7.\<close>

definition demo_listening :: "(32 word \<times> int) list state" where
  "demo_listening = demo_loaded\<lparr>listeners := [5, 7, 8]\<rparr>"

text \<open>The \<open>kbd_eval\<close> calls of a trace: keyboard, expression and return value.\<close>

fun evals_of :: "call list \<Rightarrow> (kbd_ptr \<times> string \<times> int) list" where
  "evals_of [] = []"
| "evals_of (Kbd_eval k e r # cs) = (k, e, r) # evals_of cs"
| "evals_of (c # cs) = evals_of cs"

text \<open>The concrete world, with keyboards that reject every expression.\<close>

definition eval_fails_world :: "(32 word \<times> int) list world" where
  "eval_fails_world = demo_world\<lparr>kbd_eval := (\<lambda>tr k e. (1, ''bad expression: '' @ e))\<rparr>"

text \<open>
  The calls a keyboard causes through its callbacks: keys sent to the virtual keyboard,
  and the writes and closes of a layer broadcast.
\<close>

definition is_callback_call :: "call \<Rightarrow> bool" where
  "is_callback_call c =
     (case c of Vkbd_send_key code st \<Rightarrow> True | Write f buf n nw \<Rightarrow> True | Close f \<Rightarrow> True
      | _ \<Rightarrow> False)"

text \<open>The concrete state after the mouse 12 has been bound to the keyboard 4.\<close>

definition demo_bound :: "(32 word \<times> int) list state" where
  "demo_bound = demo_loaded\<lparr>devices := [12], heap := demo_heap(12 := (demo_heap 12)\<lparr>data := Some 4\<rparr>)\<rparr>"

text \<open>The devices a trace grabs or ungrabs, in call order.\<close>

fun managed_of :: "call list \<Rightarrow> dev_ptr list" where
  "managed_of [] = []"
| "managed_of (Device_grab d g # cs) = d # managed_of cs"
| "managed_of (Device_ungrab d # cs) = d # managed_of cs"
| "managed_of (c # cs) = managed_of cs"

text \<open>The calls \<open>manage_device\<close> makes.\<close>

definition is_manage_call :: "call \<Rightarrow> bool" where
  "is_manage_call c = (case c of Device_grab d g \<Rightarrow> True | Device_ungrab d \<Rightarrow> True | _ \<Rightarrow> False)"

text \<open>The concrete state with the mouse 12 bound and the key 30 held down.\<close>

definition demo_pressed :: "(32 word \<times> int) list state" where
  "demo_pressed = demo_bound\<lparr>keystate := (\<lambda>c. 0)(30 := 1)\<rparr>"

text \<open>The concrete state after a reload of \<open>demo_pressed\<close>.\<close>

definition demo_reloaded :: "(32 word \<times> int) list state" where
  "demo_reloaded =
     demo_pressed\<lparr>configs :=
         [\<lparr>config = [(0x00030004, 1)], kbd = 17\<rparr>,
          \<lparr>config = [(0x046DC52B, 1), (0x00010002, 2)], kbd = 15\<rparr>,
          \<lparr>config = [(0x046DC52B, 1)], kbd = 13\<rparr>],
       keystate := (\<lambda>c. 0),
       heap := demo_heap(12 := (demo_heap 12)\<lparr>data := Some 15\<rparr>),
       trace := trace demo_loaded @
         [Free_kbd 6, Free_kbd 4, Free_kbd 2,
          Opendir, Config_parse ''/etc/keyd/a.conf'', New_keyboard 13,
          Config_parse ''/etc/keyd/b.conf'', New_keyboard 15,
          Config_parse ''/etc/keyd/c.conf'', New_keyboard 17, Closedir,
          Device_grab 12 0, Vkbd_send_key 30 0]\<rparr>"

text \<open>Concrete states with a full device table and with a full listener set.\<close>

definition demo_full_table :: "(32 word \<times> int) list state" where
  "demo_full_table = demo_loaded\<lparr>devices := [11, 12]\<rparr>"

definition demo_full_listeners :: "(32 word \<times> int) list state" where
  "demo_full_listeners = demo_loaded\<lparr>listeners := map int [20..<52]\<rparr>"

text \<open>The concrete world, with an \<open>accept\<close> that fails.\<close>

definition accept_fails_world :: "(32 word \<times> int) list world" where
  "accept_fails_world = demo_world\<lparr>accept := (\<lambda>tr. - 1)\<rparr>"

text \<open>The \<open>kbd_process_key_event\<close> calls of a trace: keyboard, code and pressed.\<close>

fun key_events_of :: "call list \<Rightarrow> (kbd_ptr \<times> 8 word \<times> 8 word) list" where
  "key_events_of [] = []"
| "key_events_of (Kbd_process_key_event k code pressed # cs) = (k, code, pressed) # key_events_of cs"
| "key_events_of (c # cs) = key_events_of cs"

text \<open>
  The keyboard a trace passed a non-tick key event most recently, if any. A tick is a key
  event with code 0.
\<close>

definition last_key_kbd :: "call list \<Rightarrow> kbd_ptr option" where
  "last_key_kbd tr =
     (case filter (\<lambda>(k, code, pressed). code \<noteq> 0) (key_events_of tr) of
        [] \<Rightarrow> None
      | e # es \<Rightarrow> Some (fst (last (e # es))))"

text \<open>
  The keyboards bound, at the time of dispatch, to the devices of the device events of an
  event sequence, in order; device events of unbound devices contribute nothing.
\<close>

fun bound_kbds :: "'cfg world \<Rightarrow> event list \<Rightarrow> 'cfg state \<Rightarrow> kbd_ptr list" where
  "bound_kbds w [] s = []"
| "bound_kbds w (ev # evs) s =
     (case ev of
        EV_DEV_EVENT dev devev timeleft \<Rightarrow> (case data (heap s dev) of None \<Rightarrow> [] | Some k \<Rightarrow> [k])
      | _ \<Rightarrow> [])
     @ (case event_handler w ev s of Inl e \<Rightarrow> [] | Inr (t, s1) \<Rightarrow> bound_kbds w evs s1)"

text \<open>What the operations leave alone: \<open>last_kbd\<close> and the key events of the trace.\<close>

definition same_kbd_view :: "'cfg state \<Rightarrow> 'cfg state \<Rightarrow> bool" where
  "same_kbd_view s s' =
     (last_kbd s' = last_kbd s \<and> key_events_of (trace s') = key_events_of (trace s))"

text \<open>
  The concrete states of a run: the keyboard 14 is added, the mouse 12 is added, the
  keyboard sends a key press, the mouse moves.
\<close>

definition demo_added_kbd :: "(32 word \<times> int) list state" where
  "demo_added_kbd =
     demo_loaded\<lparr>devices := [14],
       heap := demo_heap(14 := (demo_heap 14)\<lparr>data := Some 6\<rparr>),
       trace := trace demo_loaded @ [Device_grab 14 0]\<rparr>"

text \<open>After the mouse 12 was added as well.\<close>

definition demo_added_mouse :: "(32 word \<times> int) list state" where
  "demo_added_mouse =
     demo_added_kbd\<lparr>devices := [14, 12],
       heap := demo_heap(14 := (demo_heap 14)\<lparr>data := Some 6\<rparr>, 12 := (demo_heap 12)\<lparr>data := Some 4\<rparr>),
       trace := trace demo_loaded @ [Device_grab 14 0, Device_grab 12 0]\<rparr>"

text \<open>After the keyboard device 14 sent the press of key 30.\<close>

definition demo_keyed :: "(32 word \<times> int) list state" where
  "demo_keyed =
     demo_added_mouse\<lparr>keystate := (\<lambda>c. 0)(30 := 1), last_kbd := Some 6,
       trace := trace demo_loaded @
         [Device_grab 14 0, Device_grab 12 0, Kbd_process_key_event 6 30 1, Vkbd_send_key 30 1]\<rparr>"

text \<open>After the mouse 12 moved.\<close>

definition demo_moved :: "(32 word \<times> int) list state" where
  "demo_moved =
     demo_keyed\<lparr>last_kbd := Some 4,
       trace := trace demo_loaded @
         [Device_grab 14 0, Device_grab 12 0, Kbd_process_key_event 6 30 1, Vkbd_send_key 30 1,
          Vkbd_mouse_move 1 1]\<rparr>"

text \<open>The events of the run.\<close>

definition demo_events :: "event list" where
  "demo_events =
     [EV_DEV_ADD 14, EV_DEV_ADD 12, EV_DEV_EVENT 14 (DEV_KEY 30 1) 0,
      EV_DEV_EVENT 12 (DEV_MOUSE_MOVE 1 1) 0]"

section \<open>The virtual sink\<close>

lemma of_nat_neq_8: "i < 256 \<Longrightarrow> n < 256 \<Longrightarrow> i \<noteq> n \<Longrightarrow> (of_nat i :: 8 word) \<noteq> of_nat n"
proof
  assume "i < 256" "n < 256" "i \<noteq> n" and e: "(of_nat i :: 8 word) = of_nat n"
  from e have "unat (of_nat i :: 8 word) = unat (of_nat n :: 8 word)" by simp
  with \<open>i < 256\<close> \<open>n < 256\<close> have "i = n" by (simp add: unat_of_nat)
  with \<open>i \<noteq> n\<close> show False by simp
qed

lemma releases_step:
  "i < 256 \<Longrightarrow> releases ks i = (if ks (of_nat i) \<noteq> 0 then [Vkbd_send_key (of_nat i) 0] else []) @ releases ks (Suc i)"
  by (simp add: releases_def upt_conv_Cons)

lemma releases_upd: "i < 256 \<Longrightarrow> releases (ks(of_nat i := v)) (Suc i) = releases ks (Suc i)"
  unfolding releases_def
  by (rule arg_cong[where f="map _"], rule filter_cong) (auto simp: of_nat_neq_8)

lemma clear_vkbd_loop_eq:
  "i \<le> 256 \<Longrightarrow> clear_vkbd_loop i s =
     s\<lparr>keystate := (\<lambda>c. if i \<le> unat c then 0 else keystate s c),
       trace := trace s @ releases (keystate s) i\<rparr>"
proof (induction i s rule: clear_vkbd_loop.induct)
  case (1 i s)
  show ?case
  proof (cases "i < 256")
    case False
    with 1(2) have "i = 256" by simp
    have "\<And>c::8 word. unat c < 256" using unsigned_less[where 'b = 8] by simp
    hence "\<And>c::8 word. \<not> 256 \<le> unat c" by (simp add: not_le)
    thus ?thesis using \<open>i = 256\<close> by (subst clear_vkbd_loop.simps) (simp add: releases_def)
  next
    case True
    define s' where "s' = (if keystate s (of_nat i) \<noteq> 0
           then (log (Vkbd_send_key (of_nat i) 0) s)\<lparr>keystate := (keystate s)(of_nat i := 0)\<rparr>
           else s)"
    have step: "clear_vkbd_loop i s = clear_vkbd_loop (i + 1) s'"
      using True by (subst clear_vkbd_loop.simps) (simp add: s'_def)
    have ih: "clear_vkbd_loop (i + 1) s' =
        s'\<lparr>keystate := (\<lambda>c. if i + 1 \<le> unat c then 0 else keystate s' c),
          trace := trace s' @ releases (keystate s') (i + 1)\<rparr>"
      using 1(1)[OF True] True unfolding s'_def by simp
    have ks: "(\<lambda>c. if i + 1 \<le> unat c then 0 else keystate s' c) =
              (\<lambda>c. if i \<le> unat c then 0 else keystate s c)"
    proof
      fix c :: "8 word"
      show "(if i + 1 \<le> unat c then 0 else keystate s' c) = (if i \<le> unat c then 0 else keystate s c)"
      proof (cases "unat c = i")
        case True
        hence "of_nat i = (of_nat (unat c) :: 8 word)" by simp
        hence "c = of_nat i" by simp
        thus ?thesis using True by (simp add: s'_def log_def)
      next
        case False
        hence "c \<noteq> of_nat i" using \<open>i < 256\<close> by (auto simp: unat_of_nat)
        thus ?thesis using False by (auto simp: s'_def log_def)
      qed
    qed
    have tr: "trace s' @ releases (keystate s') (i + 1) = trace s @ releases (keystate s) i"
      using True by (simp add: s'_def log_def releases_step[of i] releases_upd)
    have rest: "s'\<lparr>keystate := k, trace := t\<rparr> = s\<lparr>keystate := k, trace := t\<rparr>" for k t
      by (simp add: s'_def log_def)
    show ?thesis unfolding step ih ks tr rest ..
  qed
qed

lemma count_list_distinct: "distinct xs \<Longrightarrow> count_list xs x = (if x \<in> set xs then 1 else 0)"
  by (induction xs) auto

lemma distinct_releases: "distinct (releases ks i)"
proof -
  have "inj_on (\<lambda>n. Vkbd_send_key (of_nat n :: 8 word) 0) (set (filter (\<lambda>n. ks (of_nat n) \<noteq> 0) [i..<256]))"
    by (rule inj_onI) (metis (mono_tags, lifting) atLeastLessThan_iff call.inject(1) mem_Collect_eq of_nat_neq_8 set_filter set_upt)
  thus ?thesis by (simp add: releases_def distinct_map)
qed

lemma set_releases: "set (releases ks 0) = {Vkbd_send_key c 0 | c. ks c \<noteq> 0}"
proof -
  have lt: "unat c < 256" for c :: "8 word" using unsigned_less[where 'b = 8, of c] by simp
  have "\<exists>n<256. c = of_nat n" for c :: "8 word"
    using lt[of c] by (intro exI[of _ "unat c"]) simp
  thus ?thesis unfolding releases_def by (auto simp: image_iff) (metis+)
qed

lemma clear_vkbd_eq:
  "clear_vkbd s = s\<lparr>keystate := (\<lambda>c. 0), trace := trace s @ releases (keystate s) 0\<rparr>"
  unfolding clear_vkbd_def by (simp add: clear_vkbd_loop_eq)

text \<open>
  C2. After any sequence of \<open>send_key\<close> calls, \<open>clear_vkbd\<close> changes the key state to all
  zero and appends to the trace exactly the releases of the codes whose entry was not zero:
  each such code is released once, no other code is sent, and nothing else of the state
  changes.
\<close>

theorem clear_vkbd_releases_every_pressed_key:
  "clear_vkbd (send_keys calls s0) =
     (send_keys calls s0)\<lparr>keystate := (\<lambda>c. 0),
        trace := trace (send_keys calls s0) @ releases (keystate (send_keys calls s0)) 0\<rparr>
   \<and> (\<forall>c. count_list (releases (keystate (send_keys calls s0)) 0) (Vkbd_send_key c 0) =
          (if keystate (send_keys calls s0) c \<noteq> 0 then 1 else 0))
   \<and> set (releases (keystate (send_keys calls s0)) 0) =
        {Vkbd_send_key c 0 | c. keystate (send_keys calls s0) c \<noteq> 0}
   \<and> (\<forall>c. keystate (clear_vkbd (send_keys calls s0)) c = 0)"
proof -
  let ?s = "send_keys calls s0"
  have a: "clear_vkbd ?s = ?s\<lparr>keystate := (\<lambda>c. 0), trace := trace ?s @ releases (keystate ?s) 0\<rparr>"
    by (rule clear_vkbd_eq)
  have b: "\<forall>c. count_list (releases (keystate ?s) 0) (Vkbd_send_key c 0) = (if keystate ?s c \<noteq> 0 then 1 else 0)"
    by (simp add: count_list_distinct[OF distinct_releases] set_releases)
  have d: "\<forall>c. keystate (clear_vkbd ?s) c = 0" by (simp add: a)
  show ?thesis using a b set_releases[of "keystate ?s"] d by blast
qed

section \<open>The configuration registry\<close>

lemma fold_max_ge: "(r::int) \<le> fold max xs r"
  by (induction xs arbitrary: r) (auto intro: order_trans[OF max.cobounded2])

lemma lookup_config_ent_loop_eq:
  "lookup_config_ent_loop w ident cs r m =
     (fold max (map (rank_of w ident) cs) r,
      if fold max (map (rank_of w ident) cs) r = r then m
      else find (\<lambda>e. rank_of w ident e = fold max (map (rank_of w ident) cs) r) cs)"
proof (induction cs arbitrary: r m)
  case Nil
  show ?case by simp
next
  case (Cons e es)
  let ?rk = "rank_of w ident"
  show ?case
  proof (cases "?rk e > r")
    case True
    hence mx: "max (?rk e) r = ?rk e" by simp
    have ge: "?rk e \<le> fold max (map ?rk es) (?rk e)" by (rule fold_max_ge)
    with True have ne: "fold max (map ?rk es) (?rk e) \<noteq> r" by simp
    have "lookup_config_ent_loop w ident (e # es) r m = lookup_config_ent_loop w ident es (?rk e) (Some e)"
      using True by (simp add: rank_of_def Let_def)
    thus ?thesis using ne by (simp add: Cons.IH mx)
  next
    case False
    hence mx: "max (?rk e) r = r" by simp
    have ge: "r \<le> fold max (map ?rk es) r" by (rule fold_max_ge)
    have "lookup_config_ent_loop w ident (e # es) r m = lookup_config_ent_loop w ident es r m"
      using False by (simp add: rank_of_def Let_def)
    thus ?thesis using False ge by (auto simp: Cons.IH mx)
  qed
qed

lemma best_rank_fold: "best_rank w cs ident = fold max (map (rank_of w ident) cs) 0"
  unfolding best_rank_def by (rule Max.set_eq_fold)

lemma lookup_config_ent_eq:
  "lookup_config_ent w cs ident =
     (best_rank w cs ident,
      if best_rank w cs ident = 0 then None
      else find (\<lambda>e. rank_of w ident e = best_rank w cs ident) cs)"
  unfolding lookup_config_ent_def best_rank_fold by (rule lookup_config_ent_loop_eq)

lemma find_rev_last:
  "find P (rev xs) = (if filter P xs = [] then None else Some (last (filter P xs)))"
  by (induction xs rule: rev_induct) auto

lemma new_keyboards_append: "new_keyboards (xs @ ys) = new_keyboards xs @ new_keyboards ys"
  by (induction xs rule: new_keyboards.induct) auto

lemma load_configs_loop_eq:
  "load_configs_loop w ds s = Inr s' \<Longrightarrow>
     \<exists>new ext. s' = s\<lparr>configs := rev new @ configs s, trace := trace s @ ext\<rparr>
        \<and> new_keyboards ext = map kbd new \<and> list_all is_parse_call ext"
proof (induction ds arbitrary: s)
  case Nil
  hence "s' = s\<lparr>configs := rev [] @ configs s, trace := trace s @ []\<rparr>" by simp
  moreover have "new_keyboards [] = map kbd ([] :: 'a config_ent list)" by simp
  moreover have "list_all is_parse_call []" by simp
  ultimately show ?case by blast
next
  case (Cons d ds)
  let ?full = "CONFIG_DIR w @ ''/'' @ d_name d"
  let ?path = "take 1023 ?full"
  show ?case
  proof (cases "d_type d \<noteq> DT_DIR \<and> length ?full \<ge> 5 \<and> drop (length ?full - 5) ?path = ''.conf''")
    case False
    hence "load_configs_loop w (d # ds) s = load_configs_loop w ds s" by (auto simp: Let_def)
    with Cons show ?thesis by simp
  next
    case True
    show ?thesis
    proof (cases "config_parse w (trace s) ?path")
      case None
      with True have "load_configs_loop w (d # ds) s = Inl (Die (''failed to parse '' @ ?path))"
        by (simp add: Let_def)
      with Cons.prems show ?thesis by simp
    next
      case (Some c)
      define s1 where "s1 = log (Config_parse ?path) s"
      define k where "k = new_keyboard w (trace s1) c"
      define s2 where "s2 = (log (New_keyboard k) s1)\<lparr>configs := \<lparr>config = c, kbd = k\<rparr> # configs s\<rparr>"
      have "load_configs_loop w (d # ds) s = load_configs_loop w ds s2"
        using True Some by (simp add: Let_def s1_def k_def s2_def log_def)
      with Cons.prems have "load_configs_loop w ds s2 = Inr s'" by simp
      from Cons.IH[OF this] obtain new ext where
        e: "s' = s2\<lparr>configs := rev new @ configs s2, trace := trace s2 @ ext\<rparr>"
        and nk: "new_keyboards ext = map kbd new" and pc: "list_all is_parse_call ext" by blast
      let ?new = "\<lparr>config = c, kbd = k\<rparr> # new"
      let ?ext = "Config_parse ?path # New_keyboard k # ext"
      have "s' = s\<lparr>configs := rev ?new @ configs s, trace := trace s @ ?ext\<rparr>"
        by (simp add: e s2_def s1_def log_def)
      moreover have "new_keyboards ?ext = map kbd ?new" by (simp add: nk)
      moreover have "list_all is_parse_call ?ext" by (simp add: pc is_parse_call_def)
      ultimately show ?thesis by blast
    qed
  qed
qed

lemma load_configs_eq:
  assumes "load_configs w s = Inr s'"
  shows "\<exists>new ext. s' = s\<lparr>configs := rev new, trace := trace s @ [Opendir] @ ext @ [Closedir]\<rparr>
        \<and> new_keyboards ext = map kbd new \<and> list_all is_parse_call ext"
proof -
  from assms obtain ds s1 where
    l: "load_configs_loop w ds ((log Opendir s)\<lparr>configs := []\<rparr>) = Inr s1" and s': "s' = log Closedir s1"
    by (auto simp: load_configs_def split: option.splits sum.splits)
  from load_configs_loop_eq[OF l] obtain new ext where
    e: "s1 = ((log Opendir s)\<lparr>configs := []\<rparr>)\<lparr>configs := rev new @ configs ((log Opendir s)\<lparr>configs := []\<rparr>),
          trace := trace ((log Opendir s)\<lparr>configs := []\<rparr>) @ ext\<rparr>"
    and nk: "new_keyboards ext = map kbd new" and pc: "list_all is_parse_call ext" by blast
  have "s' = s\<lparr>configs := rev new, trace := trace s @ [Opendir] @ ext @ [Closedir]\<rparr>"
    by (simp add: s' e log_def)
  with nk pc show ?thesis by blast
qed

lemma demo_load: "load_configs demo_world demo_state = Inr demo_loaded"
  by (simp add: load_configs_def demo_world_def demo_state_def demo_loaded_def demo_registry_def
      demo_dir_def demo_parse_def log_def Let_def)

text \<open>
  C3. \<open>lookup_config_ent\<close> returns the greatest rank among the entries (0 when no entry
  has a positive rank, and then no entry) together with the first entry, in iteration
  order, that has this rank. \<open>load_configs\<close> pushes each entry to the front, so the
  registry lists the keyboards in the reverse of the order of their creation, and on the
  reverse of a load order the entry returned is the last loaded one of greatest rank.
\<close>

theorem lookup_config_ent_first_of_greatest_rank:
  "lookup_config_ent w cs ident =
     (best_rank w cs ident,
      if best_rank w cs ident = 0 then None
      else find (\<lambda>e. rank_of w ident e = best_rank w cs ident) cs)
   \<and> (\<forall>e \<in> set cs. rank_of w ident e \<le> best_rank w cs ident)
   \<and> (best_rank w cs ident = 0) = (\<forall>e \<in> set cs. rank_of w ident e \<le> 0)
   \<and> (load_configs w s = Inr s' \<longrightarrow>
        map kbd (configs s') = rev (new_keyboards (drop (length (trace s)) (trace s'))))
   \<and> lookup_config_ent w (rev loaded) ident =
       (best_rank w loaded ident,
        if best_rank w loaded ident = 0 then None
        else Some (last (filter (\<lambda>e. rank_of w ident e = best_rank w loaded ident) loaded)))"
proof -
  have a: "lookup_config_ent w cs ident =
     (best_rank w cs ident,
      if best_rank w cs ident = 0 then None
      else find (\<lambda>e. rank_of w ident e = best_rank w cs ident) cs)" for cs
    by (rule lookup_config_ent_eq)
  have b: "\<forall>e \<in> set cs. rank_of w ident e \<le> best_rank w cs ident"
    unfolding best_rank_def by (auto intro!: Max_ge)
  have c: "(best_rank w cs ident = 0) = (\<forall>e \<in> set cs. rank_of w ident e \<le> 0)"
  proof -
    have "0 \<le> best_rank w cs ident" unfolding best_rank_def by (auto intro!: Max_ge)
    moreover have "(best_rank w cs ident \<le> 0) = (\<forall>e \<in> set cs. rank_of w ident e \<le> 0)"
      unfolding best_rank_def by (subst Max_le_iff) auto
    ultimately show ?thesis by auto
  qed
  have d: "load_configs w s = Inr s' \<longrightarrow>
        map kbd (configs s') = rev (new_keyboards (drop (length (trace s)) (trace s')))"
  proof
    assume "load_configs w s = Inr s'"
    from load_configs_eq[OF this] obtain new ext where
      e: "s' = s\<lparr>configs := rev new, trace := trace s @ [Opendir] @ ext @ [Closedir]\<rparr>"
      and nk: "new_keyboards ext = map kbd new" by blast
    show "map kbd (configs s') = rev (new_keyboards (drop (length (trace s)) (trace s')))"
      by (simp add: e new_keyboards_append nk rev_map)
  qed
  have br: "best_rank w (rev loaded) ident = best_rank w loaded ident"
    by (simp add: best_rank_def)
  have nonempty: "filter (\<lambda>e. rank_of w ident e = best_rank w loaded ident) loaded \<noteq> []"
    if "best_rank w loaded ident \<noteq> 0"
  proof -
    have "best_rank w loaded ident \<in> set (0 # map (rank_of w ident) loaded)"
      unfolding best_rank_def by (rule Max_in) auto
    with that have "best_rank w loaded ident \<in> rank_of w ident ` set loaded" by auto
    thus ?thesis by (auto simp: filter_empty_conv)
  qed
  have e: "lookup_config_ent w (rev loaded) ident =
       (best_rank w loaded ident,
        if best_rank w loaded ident = 0 then None
        else Some (last (filter (\<lambda>e. rank_of w ident e = best_rank w loaded ident) loaded)))"
    using nonempty by (simp add: a br find_rev_last)
  show ?thesis using a b c d e by blast
qed

text \<open>
  C3 on the concrete world: the files a.conf, b.conf and c.conf are loaded in this order; the
  id 046d:c52b has rank 1 in a.conf and in b.conf, and the lookup returns the entry of b.conf,
  the later of the two.
\<close>

theorem lookup_config_ent_first_of_greatest_rank_witness:
  "load_configs demo_world demo_state = Inr demo_loaded
   \<and> map kbd (configs demo_loaded) = [6, 4, 2]
   \<and> lookup_config_ent demo_world (configs demo_loaded) 0x046DC52B =
       (1, Some \<lparr>config = [(0x046DC52B, 1), (0x00010002, 2)], kbd = 4\<rparr>)
   \<and> lookup_config_ent demo_world (configs demo_loaded) 0x00010002 =
       (2, Some \<lparr>config = [(0x046DC52B, 1), (0x00010002, 2)], kbd = 4\<rparr>)
   \<and> lookup_config_ent demo_world (configs demo_loaded) 0x00050006 = (0, None)"
proof -
  note t = lookup_config_ent_first_of_greatest_rank
    [where w = demo_world and s = demo_state and s' = demo_loaded and cs = demo_registry]
  have rk: "rank_of demo_world i e = demo_check_match (config e) i" for i e
    by (simp add: rank_of_def demo_world_def)
  have k: "map kbd (configs demo_loaded) = [6, 4, 2]"
    using t[where ident = "0" and loaded = "[]", THEN conjunct2, THEN conjunct2, THEN conjunct2, THEN conjunct1] demo_load
    by (simp add: demo_loaded_def demo_state_def)
  have c: "configs demo_loaded = demo_registry" by (simp add: demo_loaded_def)
  have l1: "lookup_config_ent demo_world demo_registry 0x046DC52B =
       (1, Some \<lparr>config = [(0x046DC52B, 1), (0x00010002, 2)], kbd = 4\<rparr>)"
    using t[where ident = "0x046DC52B" and loaded = "[]", THEN conjunct1]
    by (simp add: best_rank_def rk demo_check_match_def demo_registry_def)
  have l2: "lookup_config_ent demo_world demo_registry 0x00010002 =
       (2, Some \<lparr>config = [(0x046DC52B, 1), (0x00010002, 2)], kbd = 4\<rparr>)"
    using t[where ident = "0x00010002" and loaded = "[]", THEN conjunct1]
    by (simp add: best_rank_def rk demo_check_match_def demo_registry_def)
  have l3: "lookup_config_ent demo_world demo_registry 0x00050006 = (0, None)"
    using t[where ident = "0x00050006" and loaded = "[]", THEN conjunct1]
    by (simp add: best_rank_def rk demo_check_match_def demo_registry_def)
  show ?thesis using demo_load k l1 l2 l3 by (simp add: c)
qed

section \<open>The device manager\<close>

lemma lookup_config_ent_rank_nonneg: "0 \<le> fst (lookup_config_ent w cs ident)"
  unfolding lookup_config_ent_eq best_rank_def by (auto intro!: Max_ge)

lemma lookup_config_ent_match:
  assumes "fst (lookup_config_ent w cs ident) \<noteq> 0"
  shows "\<exists>e \<in> set cs. snd (lookup_config_ent w cs ident) = Some e
            \<and> rank_of w ident e = fst (lookup_config_ent w cs ident)"
proof -
  let ?b = "best_rank w cs ident"
  from assms have nz: "?b \<noteq> 0" by (simp add: lookup_config_ent_eq)
  have "?b \<in> set (0 # map (rank_of w ident) cs)"
    unfolding best_rank_def by (rule Max_in) auto
  with nz obtain e0 where "e0 \<in> set cs" "rank_of w ident e0 = ?b" by auto
  then obtain e where "find (\<lambda>e. rank_of w ident e = ?b) cs = Some e"
    by (cases "find (\<lambda>e. rank_of w ident e = ?b) cs") (auto simp: find_None_iff)
  moreover from this have "e \<in> set cs" "rank_of w ident e = ?b"
    by (auto simp: find_Some_iff)
  ultimately show ?thesis using nz by (auto simp: lookup_config_ent_eq)
qed

lemma manage_device_eq:
  "manage_device w dev s =
     (if bind_condition w s dev
      then s\<lparr>heap := (heap s)(dev := (heap s dev)
                \<lparr>data := if device_grab w (trace s) dev \<noteq> 0 then None
                          else map_option kbd (snd (lookup_config_ent w (configs s) (device_id (heap s dev))))\<rparr>),
             trace := trace s @ [Device_grab dev (device_grab w (trace s) dev)]\<rparr>
      else s\<lparr>heap := (heap s)(dev := (heap s dev)\<lparr>data := None\<rparr>),
             trace := trace s @ [Device_ungrab dev]\<rparr>)"
proof -
  let ?l = "lookup_config_ent w (configs s) (device_id (heap s dev))"
  have "(fst ?l \<noteq> 0) = (fst ?l \<ge> 1)"
    using lookup_config_ent_rank_nonneg[of w "configs s" "device_id (heap s dev)"] by auto
  thus ?thesis
    by (cases ?l) (auto simp: manage_device_def bind_condition_def Let_def set_data_def log_def)
qed

lemma demo_ids:
  "device_id (demo_heap 11) = 0x046DC52B" "device_id (demo_heap 12) = 0x00010002"
  "device_id (demo_heap 13) = 0x046DC52B"
  by (simp_all add: device_id_def demo_heap_def)

lemma demo_lookups:
  assumes "config_check_match w = demo_check_match"
  shows "lookup_config_ent w demo_registry 0x046DC52B =
     (1, Some \<lparr>config = [(0x046DC52B, 1), (0x00010002, 2)], kbd = 4\<rparr>)"
  and "lookup_config_ent w demo_registry 0x00010002 =
     (2, Some \<lparr>config = [(0x046DC52B, 1), (0x00010002, 2)], kbd = 4\<rparr>)"
  by (simp_all add: lookup_config_ent_def assms demo_registry_def demo_check_match_def)

lemma demo_matchers:
  "config_check_match demo_world = demo_check_match"
  "config_check_match grab_fails_world = demo_check_match"
  by (simp_all add: demo_world_def grab_fails_world_def)

lemma demo_loaded_fields:
  "heap demo_loaded = demo_heap" "configs demo_loaded = demo_registry"
  "devices demo_loaded = []" "listeners demo_loaded = []" "last_kbd demo_loaded = None"
  by (simp_all add: demo_loaded_def demo_state_def)

lemma demo_caps:
  "capabilities (demo_heap 11) AND CAP_KEYBOARD \<noteq> 0"
  "capabilities (demo_heap 12) AND CAP_KEYBOARD = 0"
  "capabilities (demo_heap 12) AND (CAP_MOUSE OR CAP_MOUSE_ABS) \<noteq> 0"
  "capabilities (demo_heap 13) AND CAP_KEYBOARD = 0"
  "capabilities (demo_heap 13) AND (CAP_MOUSE OR CAP_MOUSE_ABS) \<noteq> 0"
  by (simp_all add: demo_heap_def CAP_KEYBOARD_def CAP_MOUSE_def CAP_MOUSE_ABS_def)

lemma demo_bind_conditions:
  assumes "config_check_match w = demo_check_match"
  shows "bind_condition w demo_loaded 11" "bind_condition w demo_loaded 12"
    "\<not> bind_condition w demo_loaded 13"
  by (simp_all add: bind_condition_def demo_loaded_fields demo_ids demo_lookups[OF assms] demo_caps)

text \<open>
  C1 as stated fails when \<open>device_grab\<close> fails: the device below has rank 1 and the
  keyboard capability, the grab is refused, and the device is left without association.
\<close>

theorem manage_device_grab_failure_counterexample:
  "fst (lookup_config_ent grab_fails_world (configs demo_loaded) (device_id (heap demo_loaded 11))) = 1
   \<and> capabilities (heap demo_loaded 11) AND CAP_KEYBOARD \<noteq> 0
   \<and> data (heap (manage_device grab_fails_world 11 demo_loaded) 11) = None
   \<and> trace (manage_device grab_fails_world 11 demo_loaded) = trace demo_loaded @ [Device_grab 11 (- 1)]"
proof -
  have g: "device_grab grab_fails_world tr d = - 1" for tr d
    by (simp add: grab_fails_world_def)
  show ?thesis
    by (simp add: manage_device_eq demo_bind_conditions demo_matchers demo_loaded_fields
        demo_ids demo_lookups demo_caps g)
qed

text \<open>
  C1, amended. \<open>manage_device\<close> calls \<open>device_grab\<close> if and only if the rank is at least
  1 and the device has the keyboard capability, or the rank is exactly 2 and the device has
  a pointer capability; otherwise it calls \<open>device_ungrab\<close> and sets the association to
  null. The device is associated with the keyboard of the looked-up entry if and only if
  the condition holds and the grab succeeds; when the grab fails the association is null.
  So a device with rank 2 and only a pointer capability is bound when its grab succeeds,
  and a device with rank 1 and only a pointer capability is not bound. Nothing but the
  association of the device and the trace changes.
\<close>

theorem manage_device_binds_iff_condition_and_grab:
  assumes "s' = manage_device w dev s"
    and "(rank, ent) = lookup_config_ent w (configs s) (device_id (heap s dev))"
    and "g = device_grab w (trace s) dev"
    and "caps = capabilities (heap s dev)"
  shows "trace s' = trace s @ [if bind_condition w s dev then Device_grab dev g else Device_ungrab dev]
    \<and> (\<exists>e \<in> set (configs s). ent = Some e \<and> data (heap s' dev) = Some (kbd e))
        = (bind_condition w s dev \<and> g = 0)
    \<and> (data (heap s' dev) = None) = (\<not> (bind_condition w s dev \<and> g = 0))
    \<and> (rank = 2 \<and> caps AND CAP_KEYBOARD = 0 \<and> caps AND (CAP_MOUSE OR CAP_MOUSE_ABS) \<noteq> 0 \<and> g = 0
         \<longrightarrow> (\<exists>e. ent = Some e \<and> data (heap s' dev) = Some (kbd e)))
    \<and> (rank = 1 \<and> caps AND CAP_KEYBOARD = 0
         \<longrightarrow> data (heap s' dev) = None \<and> trace s' = trace s @ [Device_ungrab dev])
    \<and> s' = s\<lparr>heap := (heap s)(dev := (heap s dev)\<lparr>data := data (heap s' dev)\<rparr>), trace := trace s'\<rparr>"
proof -
  let ?l = "lookup_config_ent w (configs s) (device_id (heap s dev))"
  from assms(2) have r: "rank = fst ?l" and e: "ent = snd ?l" by (metis fst_conv, metis snd_conv)
  have some: "\<exists>e \<in> set (configs s). ent = Some e" if "bind_condition w s dev"
  proof -
    from that have "fst ?l \<noteq> 0" by (auto simp: bind_condition_def Let_def)
    from lookup_config_ent_match[OF this] show ?thesis by (auto simp: e)
  qed
  have bc: "bind_condition w s dev =
      ((rank \<ge> 1 \<and> caps AND CAP_KEYBOARD \<noteq> 0) \<or> (rank = 2 \<and> caps AND (CAP_MOUSE OR CAP_MOUSE_ABS) \<noteq> 0))"
    by (simp add: bind_condition_def Let_def r assms(4))
  have d: "data (heap s' dev) = (if bind_condition w s dev \<and> g = 0 then map_option kbd ent else None)"
    by (simp add: assms(1,3) manage_device_eq e)
  have t: "trace s' = trace s @ [if bind_condition w s dev then Device_grab dev g else Device_ungrab dev]"
    by (simp add: assms(1,3) manage_device_eq)
  have c2: "(\<exists>e \<in> set (configs s). ent = Some e \<and> data (heap s' dev) = Some (kbd e))
        = (bind_condition w s dev \<and> g = 0)"
    using some by (auto simp: d)
  have c3: "(data (heap s' dev) = None) = (\<not> (bind_condition w s dev \<and> g = 0))"
    using some by (auto simp: d)
  have c4: "rank = 2 \<and> caps AND CAP_KEYBOARD = 0 \<and> caps AND (CAP_MOUSE OR CAP_MOUSE_ABS) \<noteq> 0 \<and> g = 0
         \<longrightarrow> (\<exists>e. ent = Some e \<and> data (heap s' dev) = Some (kbd e))"
    using c2 bc by auto
  have c5: "rank = 1 \<and> caps AND CAP_KEYBOARD = 0
         \<longrightarrow> data (heap s' dev) = None \<and> trace s' = trace s @ [Device_ungrab dev]"
    using c3 bc t by auto
  have c6: "s' = s\<lparr>heap := (heap s)(dev := (heap s dev)\<lparr>data := data (heap s' dev)\<rparr>), trace := trace s'\<rparr>"
    by (simp add: assms(1) manage_device_eq)
  show ?thesis using t c2 c3 c4 c5 c6 by blast
qed

text \<open>
  C1, amended, on the concrete world: the mouse 12 has rank 2 and is bound; the pointer 13 has
  rank 1 and is ungrabbed; the keyboard 11 has rank 1 and stays unbound when its grab fails.
\<close>

theorem manage_device_binds_iff_condition_and_grab_witness:
  "data (heap (manage_device demo_world 12 demo_loaded) 12) = Some 4
   \<and> trace (manage_device demo_world 12 demo_loaded) = trace demo_loaded @ [Device_grab 12 0]
   \<and> data (heap (manage_device demo_world 13 demo_loaded) 13) = None
   \<and> trace (manage_device demo_world 13 demo_loaded) = trace demo_loaded @ [Device_ungrab 13]
   \<and> data (heap (manage_device grab_fails_world 11 demo_loaded) 11) = None
   \<and> trace (manage_device grab_fails_world 11 demo_loaded) = trace demo_loaded @ [Device_grab 11 (- 1)]"
proof -
  note m = demo_matchers
  have g: "device_grab demo_world tr d = 0" "device_grab grab_fails_world tr d = - 1" for tr d
    by (simp_all add: demo_world_def grab_fails_world_def)
  have l12: "(2, Some \<lparr>config = [(0x046DC52B, 1), (0x00010002, 2)], kbd = 4\<rparr>) =
      lookup_config_ent demo_world (configs demo_loaded) (device_id (heap demo_loaded 12))"
    by (simp add: demo_loaded_fields demo_ids demo_lookups[OF m(1)])
  have l13: "(1, Some \<lparr>config = [(0x046DC52B, 1), (0x00010002, 2)], kbd = 4\<rparr>) =
      lookup_config_ent demo_world (configs demo_loaded) (device_id (heap demo_loaded 13))"
    by (simp add: demo_loaded_fields demo_ids demo_lookups[OF m(1)])
  have l11: "(1, Some \<lparr>config = [(0x046DC52B, 1), (0x00010002, 2)], kbd = 4\<rparr>) =
      lookup_config_ent grab_fails_world (configs demo_loaded) (device_id (heap demo_loaded 11))"
    by (simp add: demo_loaded_fields demo_ids demo_lookups[OF m(2)])
  have a: "data (heap (manage_device demo_world 12 demo_loaded) 12) = Some 4
     \<and> trace (manage_device demo_world 12 demo_loaded) = trace demo_loaded @ [Device_grab 12 0]"
    using manage_device_binds_iff_condition_and_grab[OF refl l12 refl refl]
    by (simp add: demo_bind_conditions[OF m(1)] g demo_loaded_fields demo_caps)
  have b: "data (heap (manage_device demo_world 13 demo_loaded) 13) = None
     \<and> trace (manage_device demo_world 13 demo_loaded) = trace demo_loaded @ [Device_ungrab 13]"
    using manage_device_binds_iff_condition_and_grab[OF refl l13 refl refl]
    by (simp add: demo_bind_conditions[OF m(1)] g demo_loaded_fields demo_caps)
  have c: "data (heap (manage_device grab_fails_world 11 demo_loaded) 11) = None
     \<and> trace (manage_device grab_fails_world 11 demo_loaded) = trace demo_loaded @ [Device_grab 11 (- 1)]"
    using manage_device_binds_iff_condition_and_grab[OF refl l11 refl refl]
    by (simp add: demo_bind_conditions[OF m(2)] g demo_loaded_fields demo_caps)
  show ?thesis using a b c by simp
qed

section \<open>The layer broadcast\<close>

lemma writes_of_append: "writes_of (xs @ ys) = writes_of xs @ writes_of ys"
  by (induction xs rule: writes_of.induct) auto

lemma full_writes_append: "full_writes (xs @ ys) = full_writes xs @ full_writes ys"
  by (induction xs rule: full_writes.induct) auto

lemma failed_writes_append: "failed_writes (xs @ ys) = failed_writes xs @ failed_writes ys"
  by (induction xs rule: failed_writes.induct) auto

lemma closes_append: "closes (xs @ ys) = closes xs @ closes ys"
  by (induction xs rule: closes.induct) auto

lemma short_writes_failed: "set (short_writes xs) \<subseteq> set (failed_writes xs)"
  by (induction xs rule: short_writes.induct) auto

lemma full_failed_writes: "set (full_writes xs) \<union> set (failed_writes xs) = fst ` set (writes_of xs)"
  by (induction xs rule: writes_of.induct) auto

lemma layer_observer_loop_eq:
  "layer_observer_loop w buf n ls keep s = (keep', s') \<Longrightarrow>
     \<exists>ext. s' = s\<lparr>trace := trace s @ ext\<rparr> \<and> keep' = keep @ full_writes ext
        \<and> writes_of ext = map (\<lambda>f. (f, buf, n)) ls \<and> closes ext = failed_writes ext
        \<and> length (full_writes ext) + length (failed_writes ext) = length ls
        \<and> (\<forall>c \<in> set ext. (\<exists>f nw. c = Write f buf n nw) \<or> (\<exists>f. c = Close f))"
proof (induction ls arbitrary: keep s)
  case Nil
  hence "s' = s\<lparr>trace := trace s @ []\<rparr> \<and> keep' = keep @ full_writes []" by simp
  thus ?case by (intro exI[of _ "[]"]) simp
next
  case (Cons l ls)
  define nw where "nw = sys_write w (trace s) l buf n"
  define s1 where "s1 = log (Write l buf n nw) s"
  show ?case
  proof (cases "nw = int n")
    case True
    hence "layer_observer_loop w buf n (l # ls) keep s = layer_observer_loop w buf n ls (keep @ [l]) s1"
      by (simp add: nw_def s1_def Let_def)
    with Cons.prems have "layer_observer_loop w buf n ls (keep @ [l]) s1 = (keep', s')" by simp
    from Cons.IH[OF this] obtain ext where
      e: "s' = s1\<lparr>trace := trace s1 @ ext\<rparr>" "keep' = (keep @ [l]) @ full_writes ext"
         "writes_of ext = map (\<lambda>f. (f, buf, n)) ls" "closes ext = failed_writes ext"
         "length (full_writes ext) + length (failed_writes ext) = length ls"
         "\<forall>c \<in> set ext. (\<exists>f nw. c = Write f buf n nw) \<or> (\<exists>f. c = Close f)"
      by blast
    show ?thesis
      by (intro exI[of _ "Write l buf n nw # ext"]) (use True e in \<open>auto simp: s1_def log_def\<close>)
  next
    case False
    hence "layer_observer_loop w buf n (l # ls) keep s = layer_observer_loop w buf n ls keep (log (Close l) s1)"
      by (simp add: nw_def s1_def Let_def)
    with Cons.prems have "layer_observer_loop w buf n ls keep (log (Close l) s1) = (keep', s')" by simp
    from Cons.IH[OF this] obtain ext where
      e: "s' = (log (Close l) s1)\<lparr>trace := trace (log (Close l) s1) @ ext\<rparr>" "keep' = keep @ full_writes ext"
         "writes_of ext = map (\<lambda>f. (f, buf, n)) ls" "closes ext = failed_writes ext"
         "length (full_writes ext) + length (failed_writes ext) = length ls"
         "\<forall>c \<in> set ext. (\<exists>f nw. c = Write f buf n nw) \<or> (\<exists>f. c = Close f)"
      by blast
    show ?thesis
      by (intro exI[of _ "Write l buf n nw # Close l # ext"]) (use False e in \<open>auto simp: s1_def log_def\<close>)
  qed
qed

lemma full_writes_length_le: "length (full_writes xs) \<le> length (writes_of xs)"
  by (induction xs rule: writes_of.induct) auto

lemma full_writes_all:
  "length (full_writes xs) = length (writes_of xs) \<Longrightarrow> full_writes xs = map fst (writes_of xs)"
proof (induction xs rule: writes_of.induct)
  case (2 f buf n nw cs)
  show ?case
  proof (cases "nw = int n")
    case True
    with 2 show ?thesis by simp
  next
    case False
    with "2.prems" full_writes_length_le[of cs] show ?thesis by simp
  qed
qed auto

lemma layer_observer_eq:
  "\<exists>ext. layer_observer w nm st s = s\<lparr>listeners := full_writes ext, trace := trace s @ ext\<rparr>
      \<and> writes_of ext =
          map (\<lambda>f. (f, take (MAX_LAYER_NAME_LEN w + 1) ((if st \<noteq> 0 then CHR ''+'' else CHR ''-'') # nm @ ''\<newline>''),
                     length nm + 2)) (listeners s)
      \<and> closes ext = failed_writes ext
      \<and> (\<forall>c \<in> set ext. (\<exists>f buf n nw. c = Write f buf n nw) \<or> (\<exists>f. c = Close f))"
proof (cases "listeners s = []")
  case True
  hence "layer_observer w nm st s = s\<lparr>listeners := full_writes [], trace := trace s @ []\<rparr>"
    by (simp add: layer_observer_def)
  thus ?thesis using True by (intro exI[of _ "[]"]) simp
next
  case False
  let ?line = "(if st \<noteq> 0 then CHR ''+'' else CHR ''-'') # nm @ ''\<newline>''"
  let ?buf = "take (MAX_LAYER_NAME_LEN w + 1) ?line"
  obtain keep s1 where l: "layer_observer_loop w ?buf (length ?line) (listeners s) [] s = (keep, s1)"
    by (cases "layer_observer_loop w ?buf (length ?line) (listeners s) [] s")
  from layer_observer_loop_eq[OF l] obtain ext where
    e: "s1 = s\<lparr>trace := trace s @ ext\<rparr>" "keep = [] @ full_writes ext"
       "writes_of ext = map (\<lambda>f. (f, ?buf, length ?line)) (listeners s)" "closes ext = failed_writes ext"
       "\<forall>c \<in> set ext. (\<exists>f nw. c = Write f ?buf (length ?line) nw) \<or> (\<exists>f. c = Close f)"
    by blast
  have lo: "layer_observer w nm st s = (if length keep \<noteq> length (listeners s) then s1\<lparr>listeners := keep\<rparr> else s1)"
    using False l by (simp add: layer_observer_def Let_def)
  have "layer_observer w nm st s = s\<lparr>listeners := full_writes ext, trace := trace s @ ext\<rparr>"
  proof (cases "length keep = length (listeners s)")
    case True
    hence "length (full_writes ext) = length (writes_of ext)" by (simp add: e)
    from full_writes_all[OF this] have "full_writes ext = listeners s" by (simp add: e(3) comp_def)
    thus ?thesis using True by (simp add: lo e(1))
  next
    case False
    thus ?thesis by (simp add: lo e(1,2))
  qed
  moreover have "length ?line = length nm + 2" by simp
  moreover have "\<forall>c \<in> set ext. (\<exists>f buf n nw. c = Write f buf n nw) \<or> (\<exists>f. c = Close f)"
    using e(5) by blast
  ultimately show ?thesis using e(3,4) by (intro exI[of _ ext]) simp
qed

lemma full_failed_disjoint:
  "distinct (map fst (writes_of xs)) \<Longrightarrow> set (full_writes xs) \<inter> set (failed_writes xs) = {}"
proof (induction xs rule: writes_of.induct)
  case (2 f buf n nw cs)
  have "set (full_writes cs) \<subseteq> fst ` set (writes_of cs)" "set (failed_writes cs) \<subseteq> fst ` set (writes_of cs)"
    using full_failed_writes[of cs] by auto
  with 2 show ?case by auto
qed auto

text \<open>
  C8. A layer broadcast writes the line once to every listener, in the order of the set.
  The listeners closed are exactly those whose write did not return the length of the
  line, among them those whose write returned fewer bytes; the listeners kept are exactly
  those whose write returned the whole length, in their order, so the size of the set is
  the number of such writes. Nothing but the listener set and the trace changes.
\<close>

theorem layer_observer_drops_failed_writers:
  assumes "s' = layer_observer w nm st s" and "ext = drop (length (trace s)) (trace s')"
  shows "trace s' = trace s @ ext
    \<and> writes_of ext =
        map (\<lambda>f. (f, take (MAX_LAYER_NAME_LEN w + 1) ((if st \<noteq> 0 then CHR ''+'' else CHR ''-'') # nm @ ''\<newline>''),
                   length nm + 2)) (listeners s)
    \<and> closes ext = failed_writes ext
    \<and> set (short_writes ext) \<subseteq> set (closes ext)
    \<and> listeners s' = full_writes ext
    \<and> length (listeners s') = length (full_writes ext)
    \<and> length (listeners s') + length (closes ext) = length (listeners s)
    \<and> (distinct (listeners s) \<longrightarrow> set (listeners s') \<inter> set (closes ext) = {})
    \<and> s' = s\<lparr>listeners := listeners s', trace := trace s'\<rparr>"
proof -
  from layer_observer_eq[of w nm st s] obtain e where
    e: "layer_observer w nm st s = s\<lparr>listeners := full_writes e, trace := trace s @ e\<rparr>"
    and wr: "writes_of e =
        map (\<lambda>f. (f, take (MAX_LAYER_NAME_LEN w + 1) ((if st \<noteq> 0 then CHR ''+'' else CHR ''-'') # nm @ ''\<newline>''),
                   length nm + 2)) (listeners s)"
    and cl: "closes e = failed_writes e" by blast
  have ext: "ext = e" by (simp add: assms e)
  have fst_wr: "map fst (writes_of e) = listeners s" by (simp add: wr comp_def)
  have len: "length (full_writes xs) + length (failed_writes xs) = length (writes_of xs)" for xs
    by (induction xs rule: writes_of.induct) auto
  have l: "length (full_writes e) + length (failed_writes e) = length (listeners s)"
    using len[of e] by (simp add: wr)
  have d: "distinct (listeners s) \<longrightarrow> set (full_writes e) \<inter> set (failed_writes e) = {}"
    using full_failed_disjoint[of e] by (simp add: fst_wr)
  show ?thesis
    unfolding ext using wr cl short_writes_failed[of e] l d by (simp add: assms(1) e)
qed

text \<open>
  C8 on the concrete world: of the listeners 5, 7 and 8 the listener 7 is closed and removed.
\<close>

theorem layer_observer_drops_failed_writers_witness:
  "listeners (layer_observer demo_world ''nav'' 1 demo_listening) = [5, 8]
   \<and> trace (layer_observer demo_world ''nav'' 1 demo_listening) =
       trace demo_listening @
         [Write 5 ''+nav\<newline>'' 5 5, Write 7 ''+nav\<newline>'' 5 (- 1), Close 7, Write 8 ''+nav\<newline>'' 5 5]
   \<and> closes (drop (length (trace demo_listening)) (trace (layer_observer demo_world ''nav'' 1 demo_listening))) = [7]
   \<and> set (listeners (layer_observer demo_world ''nav'' 1 demo_listening)) \<inter> {7} = {}"
proof -
  have t: "trace (layer_observer demo_world ''nav'' 1 demo_listening) =
       trace demo_listening @
         [Write 5 ''+nav\<newline>'' 5 5, Write 7 ''+nav\<newline>'' 5 (- 1), Close 7, Write 8 ''+nav\<newline>'' 5 5]"
    by (simp add: layer_observer_def demo_listening_def demo_world_def log_def Let_def)
  have d: "distinct (listeners demo_listening)" by (simp add: demo_listening_def)
  show ?thesis
    using layer_observer_drops_failed_writers[OF refl refl, of demo_world "''nav''" 1 demo_listening] d
    by (simp add: t)
qed

section \<open>The IPC server\<close>

lemma bind_loop_eq:
  "bind_loop w expr cs succ s = (succ', s') \<Longrightarrow>
     \<exists>evs. s' = s\<lparr>errstr := errstr s', trace := trace s @ evs\<rparr>
        \<and> evs = map (\<lambda>(k, e, r). Kbd_eval k e r) (evals_of evs)
        \<and> map (\<lambda>(k, e, r). (k, e)) (evals_of evs) = map (\<lambda>ent. (kbd ent, expr)) cs
        \<and> succ' = (succ \<or> 0 \<in> (\<lambda>(k, e, r). r) ` set (evals_of evs))
        \<and> errstr s' = (if cs = [] then errstr s
                        else snd (kbd_eval w (butlast (trace s')) (kbd (last cs)) expr))"
proof (induction cs arbitrary: succ s)
  case Nil
  thus ?case by (intro exI[of _ "[]"]) simp
next
  case (Cons ent rest)
  obtain r err where k: "kbd_eval w (trace s) (kbd ent) expr = (r, err)"
    by (cases "kbd_eval w (trace s) (kbd ent) expr")
  define s1 where "s1 = (log (Kbd_eval (kbd ent) expr r) s)\<lparr>errstr := err\<rparr>"
  have "bind_loop w expr (ent # rest) succ s = bind_loop w expr rest (if r = 0 then True else succ) s1"
    by (simp add: k s1_def)
  with Cons.prems have "bind_loop w expr rest (if r = 0 then True else succ) s1 = (succ', s')" by simp
  from Cons.IH[OF this] obtain evs where
    e: "s' = s1\<lparr>errstr := errstr s', trace := trace s1 @ evs\<rparr>"
       "evs = map (\<lambda>(k, e, r). Kbd_eval k e r) (evals_of evs)"
       "map (\<lambda>(k, e, r). (k, e)) (evals_of evs) = map (\<lambda>ent. (kbd ent, expr)) rest"
       "succ' = ((if r = 0 then True else succ) \<or> 0 \<in> (\<lambda>(k, e, r). r) ` set (evals_of evs))"
       "errstr s' = (if rest = [] then errstr s1
                        else snd (kbd_eval w (butlast (trace s')) (kbd (last rest)) expr))"
    by blast
  have s': "s' = s\<lparr>errstr := errstr s', trace := trace s @ Kbd_eval (kbd ent) expr r # evs\<rparr>"
    by (subst e(1)) (simp add: s1_def log_def)
  have last: "errstr s' = snd (kbd_eval w (butlast (trace s')) (kbd (last (ent # rest))) expr)"
  proof (cases "rest = []")
    case True
    with e(3) have "evs = []" using e(2) by (cases evs) auto
    moreover have "trace s' = trace s1 @ evs" by (subst e(1)) simp
    ultimately have "trace s' = trace s1" "errstr s' = errstr s1" using e(5) True by simp_all
    thus ?thesis using True k by (simp add: s1_def log_def)
  next
    case False
    with e(5) show ?thesis by simp
  qed
  show ?case
    apply (intro exI[of _ "Kbd_eval (kbd ent) expr r # evs"])
    using s' e(2,3,4) last by auto
qed

text \<open>
  C7. On a BIND request the daemon calls \<open>kbd_eval\<close> with the data string on the keyboard
  of every registry entry, in iteration order and whatever the earlier calls returned,
  then writes one reply and closes the connection: the reply is SUCCESS if and only if
  some call returned 0, and otherwise FAIL with the error string as it stands after the
  calls (cut to the size of the data field). Nothing but the error string and the trace
  changes.
\<close>

theorem handle_client_bind_evaluates_every_entry:
  assumes "xread w (trace s) con = msg" and "msg_type msg = IPC_BIND"
  shows "\<exists>s' evs. handle_client w con s = Inr s'
    \<and> s' = s\<lparr>errstr := errstr s',
             trace := trace s @ [Xread con msg] @ evs @
               [Xwrite_msg con
                  (if 0 \<in> (\<lambda>(k, e, r). r) ` set (evals_of evs)
                   then \<lparr>msg_type = IPC_SUCCESS, msg_sz = 7, msg_data = ''Success''\<rparr>
                   else \<lparr>msg_type = IPC_FAIL, msg_sz = of_nat (length (errstr s')),
                         msg_data = take (MAX_IPC_MESSAGE_SIZE w - 1) (errstr s')\<rparr>),
                Close con]\<rparr>
    \<and> evs = map (\<lambda>(k, e, r). Kbd_eval k e r) (evals_of evs)
    \<and> map (\<lambda>(k, e, r). (k, e)) (evals_of evs) = map (\<lambda>ent. (kbd ent, msg_data msg)) (configs s)
    \<and> errstr s' = (if configs s = [] then errstr s
                   else snd (kbd_eval w (trace s @ [Xread con msg] @ butlast evs) (kbd (last (configs s))) (msg_data msg)))"
proof -
  define s0 where "s0 = log (Xread con msg) s"
  obtain succ s1 where b: "bind_loop w (msg_data msg) (configs s0) False s0 = (succ, s1)"
    by (cases "bind_loop w (msg_data msg) (configs s0) False s0")
  from bind_loop_eq[OF b] obtain evs where
    e: "s1 = s0\<lparr>errstr := errstr s1, trace := trace s0 @ evs\<rparr>"
       "evs = map (\<lambda>(k, e, r). Kbd_eval k e r) (evals_of evs)"
       "map (\<lambda>(k, e, r). (k, e)) (evals_of evs) = map (\<lambda>ent. (kbd ent, msg_data msg)) (configs s0)"
       "succ = (False \<or> 0 \<in> (\<lambda>(k, e, r). r) ` set (evals_of evs))"
       "errstr s1 = (if configs s0 = [] then errstr s0
                        else snd (kbd_eval w (butlast (trace s1)) (kbd (last (configs s0))) (msg_data msg)))"
    by blast
  define s' where "s' = (if succ then send_success con s1 else send_fail w con (errstr s1) s1)"
  have h: "handle_client w con s = Inr s'"
    using assms b by (simp add: handle_client_def Let_def s0_def s'_def)
  have es: "errstr s' = errstr s1" by (simp add: s'_def send_success_def send_fail_def log_def)
  have t1: "trace s1 = trace s @ [Xread con msg] @ evs" by (subst e(1)) (simp add: s0_def log_def)
  have ne: "evs \<noteq> []" if "configs s \<noteq> []"
    using that e(3) by (cases evs) (auto simp: s0_def log_def)
  have bl: "butlast (trace s1) = trace s @ [Xread con msg] @ butlast evs" if "configs s \<noteq> []"
    using ne[OF that] by (simp add: t1 butlast_append)
  have c1: "s' = s\<lparr>errstr := errstr s',
             trace := trace s @ [Xread con msg] @ evs @
               [Xwrite_msg con
                  (if 0 \<in> (\<lambda>(k, e, r). r) ` set (evals_of evs)
                   then \<lparr>msg_type = IPC_SUCCESS, msg_sz = 7, msg_data = ''Success''\<rparr>
                   else \<lparr>msg_type = IPC_FAIL, msg_sz = of_nat (length (errstr s')),
                         msg_data = take (MAX_IPC_MESSAGE_SIZE w - 1) (errstr s')\<rparr>),
                Close con]\<rparr>"
    unfolding es
    by (subst s'_def, subst (1 2) e(1)) (simp add: e(4) send_success_def send_fail_def log_def s0_def)
  have c3: "map (\<lambda>(k, e, r). (k, e)) (evals_of evs) = map (\<lambda>ent. (kbd ent, msg_data msg)) (configs s)"
    using e(3) by (simp add: s0_def log_def)
  have c4: "errstr s' = (if configs s = [] then errstr s
                   else snd (kbd_eval w (trace s @ [Xread con msg] @ butlast evs) (kbd (last (configs s))) (msg_data msg)))"
    using e(5) bl by (auto simp: es s0_def log_def)
  show ?thesis using h c1 e(2) c3 c4 by blast
qed

lemma demo_bind_request:
  "xread demo_world tr f = \<lparr>msg_type = IPC_BIND, msg_sz = 3, msg_data = ''a=b''\<rparr>"
  "xread eval_fails_world tr f = \<lparr>msg_type = IPC_BIND, msg_sz = 3, msg_data = ''a=b''\<rparr>"
  by (simp_all add: demo_world_def eval_fails_world_def)

text \<open>
  C7 on the concrete world: three keyboards are asked; one accepts and the reply is SUCCESS;
  when all reject, the reply is FAIL with the error string, cut to 15 characters.
\<close>

theorem handle_client_bind_evaluates_every_entry_witness:
  "handle_client demo_world 9 demo_loaded =
     Inr (demo_loaded\<lparr>errstr := [],
            trace := trace demo_loaded @
              [Xread 9 \<lparr>msg_type = IPC_BIND, msg_sz = 3, msg_data = ''a=b''\<rparr>,
               Kbd_eval 6 ''a=b'' (- 1), Kbd_eval 4 ''a=b'' (- 1), Kbd_eval 2 ''a=b'' 0,
               Xwrite_msg 9 \<lparr>msg_type = IPC_SUCCESS, msg_sz = 7, msg_data = ''Success''\<rparr>, Close 9]\<rparr>)
   \<and> handle_client eval_fails_world 9 demo_loaded =
     Inr (demo_loaded\<lparr>errstr := ''bad expression: a=b'',
            trace := trace demo_loaded @
              [Xread 9 \<lparr>msg_type = IPC_BIND, msg_sz = 3, msg_data = ''a=b''\<rparr>,
               Kbd_eval 6 ''a=b'' 1, Kbd_eval 4 ''a=b'' 1, Kbd_eval 2 ''a=b'' 1,
               Xwrite_msg 9 \<lparr>msg_type = IPC_FAIL, msg_sz = 19, msg_data = ''bad expression:''\<rparr>, Close 9]\<rparr>)"
proof -
  have k: "kbd_eval demo_world tr k e = (if k = 2 then (0, []) else (- 1, ''no such key''))"
    "kbd_eval eval_fails_world tr k e = (1, ''bad expression: '' @ e)"
    "MAX_IPC_MESSAGE_SIZE eval_fails_world = 16" for tr k e
    by (simp_all add: demo_world_def eval_fails_world_def)
  have x: "xread demo_world (trace demo_loaded) 9 = \<lparr>msg_type = IPC_BIND, msg_sz = 3, msg_data = ''a=b''\<rparr>"
    by (rule demo_bind_request)
  have y: "msg_type \<lparr>msg_type = IPC_BIND, msg_sz = 3, msg_data = ''a=b''\<rparr> = IPC_BIND" by simp
  have a: "handle_client demo_world 9 demo_loaded =
     Inr (demo_loaded\<lparr>errstr := [],
            trace := trace demo_loaded @
              [Xread 9 \<lparr>msg_type = IPC_BIND, msg_sz = 3, msg_data = ''a=b''\<rparr>,
               Kbd_eval 6 ''a=b'' (- 1), Kbd_eval 4 ''a=b'' (- 1), Kbd_eval 2 ''a=b'' 0,
               Xwrite_msg 9 \<lparr>msg_type = IPC_SUCCESS, msg_sz = 7, msg_data = ''Success''\<rparr>, Close 9]\<rparr>)"
    using handle_client_bind_evaluates_every_entry[OF x y]
    by (simp add: handle_client_def demo_bind_request k demo_loaded_fields demo_registry_def
        send_success_def send_fail_def log_def Let_def)
  have b: "handle_client eval_fails_world 9 demo_loaded =
     Inr (demo_loaded\<lparr>errstr := ''bad expression: a=b'',
            trace := trace demo_loaded @
              [Xread 9 \<lparr>msg_type = IPC_BIND, msg_sz = 3, msg_data = ''a=b''\<rparr>,
               Kbd_eval 6 ''a=b'' 1, Kbd_eval 4 ''a=b'' 1, Kbd_eval 2 ''a=b'' 1,
               Xwrite_msg 9 \<lparr>msg_type = IPC_FAIL, msg_sz = 19, msg_data = ''bad expression:''\<rparr>, Close 9]\<rparr>)"
    by (simp add: handle_client_def demo_bind_request k demo_loaded_fields demo_registry_def
        send_success_def send_fail_def log_def Let_def)
  show ?thesis using a b by simp
qed

section \<open>The event dispatcher: scroll events\<close>

lemma run_callback_eq:
  "\<exists>ext. run_callback w cb s =
       s\<lparr>keystate := keystate (run_callback w cb s), listeners := listeners (run_callback w cb s),
         trace := trace s @ ext\<rparr> \<and> list_all is_callback_call ext"
proof (cases cb)
  case (Emit_key code st)
  thus ?thesis
    by (intro exI[of _ "[Vkbd_send_key code st]"]) (simp add: send_key_def log_def is_callback_call_def)
next
  case (Layer_change nm st)
  from layer_observer_eq[of w nm st s] obtain ext where
    e: "layer_observer w nm st s = s\<lparr>listeners := full_writes ext, trace := trace s @ ext\<rparr>"
    and c: "\<forall>c \<in> set ext. (\<exists>f buf n nw. c = Write f buf n nw) \<or> (\<exists>f. c = Close f)" by blast
  from c have "list_all is_callback_call ext"
    by (auto simp: list_all_iff is_callback_call_def)
  thus ?thesis using Layer_change e by (intro exI[of _ ext]) simp
qed

lemma run_callbacks_eq:
  "\<exists>ext. fold (run_callback w) cbs s =
       s\<lparr>keystate := keystate (fold (run_callback w) cbs s),
         listeners := listeners (fold (run_callback w) cbs s),
         trace := trace s @ ext\<rparr> \<and> list_all is_callback_call ext"
proof (induction cbs arbitrary: s)
  case Nil
  show ?case by (intro exI[of _ "[]"]) simp
next
  case (Cons cb cbs)
  let ?s1 = "run_callback w cb s"
  from run_callback_eq[of w cb s] obtain e1 where
    a: "?s1 = s\<lparr>keystate := keystate ?s1, listeners := listeners ?s1, trace := trace s @ e1\<rparr>"
    and a': "list_all is_callback_call e1" by blast
  let ?s2 = "fold (run_callback w) cbs ?s1"
  from Cons[of ?s1] obtain e2 where
    b: "?s2 = ?s1\<lparr>keystate := keystate ?s2, listeners := listeners ?s2, trace := trace ?s1 @ e2\<rparr>"
    and b': "list_all is_callback_call e2" by blast
  have "trace ?s1 = trace s @ e1" by (subst a) simp
  hence "?s2 = s\<lparr>keystate := keystate ?s2, listeners := listeners ?s2, trace := trace s @ (e1 @ e2)\<rparr>"
    by (subst b, subst (3) a) simp
  thus ?case using a' b' by (intro exI[of _ "e1 @ e2"]) simp
qed

lemma call_kbd_process_key_event_eq:
  "\<exists>ext. snd (call_kbd_process_key_event w k code pressed s) =
       s\<lparr>keystate := keystate (snd (call_kbd_process_key_event w k code pressed s)),
         listeners := listeners (snd (call_kbd_process_key_event w k code pressed s)),
         trace := trace s @ Kbd_process_key_event k code pressed # ext\<rparr>
     \<and> list_all is_callback_call ext
     \<and> fst (call_kbd_process_key_event w k code pressed s) = snd (kbd_process_key_event w (trace s) k code pressed)"
proof -
  obtain cbs t where o: "kbd_process_key_event w (trace s) k code pressed = (cbs, t)"
    by (cases "kbd_process_key_event w (trace s) k code pressed")
  let ?s0 = "log (Kbd_process_key_event k code pressed) s"
  have c: "call_kbd_process_key_event w k code pressed s = (t, fold (run_callback w) cbs ?s0)"
    by (simp add: call_kbd_process_key_event_def o)
  let ?s1 = "fold (run_callback w) cbs ?s0"
  from run_callbacks_eq[of w cbs ?s0] obtain ext where
    e: "?s1 = ?s0\<lparr>keystate := keystate ?s1, listeners := listeners ?s1, trace := trace ?s0 @ ext\<rparr>"
    and e': "list_all is_callback_call ext" by blast
  have "?s1 = s\<lparr>keystate := keystate ?s1, listeners := listeners ?s1,
         trace := trace s @ Kbd_process_key_event k code pressed # ext\<rparr>"
    by (subst e) (simp add: log_def)
  thus ?thesis using e' by (intro exI[of _ ext]) (simp add: c o)
qed

text \<open>
  C6. A MOUSE_SCROLL event of a bound device returns the incoming \<open>timeleft\<close>. It calls
  the bound keyboard with a press of the reserved external-mouse-button code, then with a
  release of that code, and at the end forwards the scroll to the virtual keyboard; the
  only calls in between are those the keyboard causes through its callbacks. The event
  sets \<open>last_kbd\<close> to the bound keyboard.
\<close>

theorem event_handler_scroll_press_release_then_scroll:
  assumes "data (heap s dev) = Some k"
  shows "\<exists>s' cb1 cb2.
      event_handler w (EV_DEV_EVENT dev (DEV_MOUSE_SCROLL x y) timeleft) s = Inr (timeleft, s')
    \<and> trace s' = trace s @ [Kbd_process_key_event k (KEYD_EXTERNAL_MOUSE_BUTTON w) 1] @ cb1
                    @ [Kbd_process_key_event k (KEYD_EXTERNAL_MOUSE_BUTTON w) 0] @ cb2
                    @ [Vkbd_mouse_scroll x y]
    \<and> list_all is_callback_call cb1 \<and> list_all is_callback_call cb2
    \<and> s' = s\<lparr>keystate := keystate s', listeners := listeners s', last_kbd := Some k, trace := trace s'\<rparr>"
proof -
  let ?b = "KEYD_EXTERNAL_MOUSE_BUTTON w"
  let ?s0 = "s\<lparr>last_kbd := Some k\<rparr>"
  let ?s1 = "snd (call_kbd_process_key_event w k ?b 1 ?s0)"
  let ?s2 = "snd (call_kbd_process_key_event w k ?b 0 ?s1)"
  let ?s' = "log (Vkbd_mouse_scroll x y) ?s2"
  have h: "event_handler w (EV_DEV_EVENT dev (DEV_MOUSE_SCROLL x y) timeleft) s = Inr (timeleft, ?s')"
    using assms by (simp add: event_handler_def Let_def)
  from call_kbd_process_key_event_eq[of w k ?b 1 ?s0] obtain cb1 where
    a: "?s1 = ?s0\<lparr>keystate := keystate ?s1, listeners := listeners ?s1,
         trace := trace ?s0 @ Kbd_process_key_event k ?b 1 # cb1\<rparr>"
    and a': "list_all is_callback_call cb1" by blast
  from call_kbd_process_key_event_eq[of w k ?b 0 ?s1] obtain cb2 where
    b: "?s2 = ?s1\<lparr>keystate := keystate ?s2, listeners := listeners ?s2,
         trace := trace ?s1 @ Kbd_process_key_event k ?b 0 # cb2\<rparr>"
    and b': "list_all is_callback_call cb2" by blast
  have t1: "trace ?s1 = trace s @ Kbd_process_key_event k ?b 1 # cb1" by (subst a) simp
  have s2: "?s2 = s\<lparr>keystate := keystate ?s2, listeners := listeners ?s2, last_kbd := Some k,
      trace := trace s @ Kbd_process_key_event k ?b 1 # cb1 @ Kbd_process_key_event k ?b 0 # cb2\<rparr>"
    by (subst b, subst (3) a) (simp add: t1)
  have t: "trace ?s' = trace s @ [Kbd_process_key_event k ?b 1] @ cb1 @ [Kbd_process_key_event k ?b 0] @ cb2
                    @ [Vkbd_mouse_scroll x y]"
    unfolding log_def by (subst s2) simp
  have f: "?s' = s\<lparr>keystate := keystate ?s', listeners := listeners ?s', last_kbd := Some k, trace := trace ?s'\<rparr>"
    unfolding log_def by (subst s2) simp
  show ?thesis using h t a' b' f by blast
qed

text \<open>
  C6 on the concrete world, where the keyboard passes every key on to the virtual keyboard.
\<close>

theorem event_handler_scroll_press_release_then_scroll_witness:
  "event_handler demo_world (EV_DEV_EVENT 12 (DEV_MOUSE_SCROLL 0 (- 1)) 250) demo_bound =
     Inr (250, demo_bound\<lparr>keystate := (\<lambda>c. 0), last_kbd := Some 4,
            trace := trace demo_bound @
              [Kbd_process_key_event 4 249 1, Vkbd_send_key 249 1,
               Kbd_process_key_event 4 249 0, Vkbd_send_key 249 0, Vkbd_mouse_scroll 0 (- 1)]\<rparr>)"
proof -
  have d: "data (heap demo_bound 12) = Some 4" by (simp add: demo_bound_def)
  have k: "kbd_process_key_event demo_world tr k c p = ([Emit_key c p], 0)"
    "KEYD_EXTERNAL_MOUSE_BUTTON demo_world = 249" for tr k c p
    by (simp_all add: demo_world_def)
  have ks: "keystate demo_bound = (\<lambda>c. 0)"
    by (simp add: demo_bound_def demo_loaded_def demo_state_def)
  have "(keystate demo_bound)(249 := 1, 249 := 0) = (\<lambda>c. 0)" by (auto simp: ks)
  thus ?thesis
    using event_handler_scroll_press_release_then_scroll[OF d, of demo_world 0 "- 1" 250]
    by (simp add: event_handler_def d k call_kbd_process_key_event_def send_key_def log_def)
qed

section \<open>Reload\<close>

lemma free_configs_loop_eq:
  "free_configs_loop cs s = s\<lparr>trace := trace s @ map (\<lambda>e. Free_kbd (kbd e)) cs\<rparr>"
  by (induction cs arbitrary: s) (simp_all add: log_def)

lemma free_configs_eq:
  "free_configs s = s\<lparr>configs := [], trace := trace s @ map (\<lambda>e. Free_kbd (kbd e)) (configs s)\<rparr>"
  by (simp add: free_configs_def free_configs_loop_eq)

lemma managed_of_append: "managed_of (xs @ ys) = managed_of xs @ managed_of ys"
  by (induction xs rule: managed_of.induct) auto

lemma manage_devices_eq:
  "\<exists>binds. fold (manage_device w) ds s =
       s\<lparr>heap := heap (fold (manage_device w) ds s), trace := trace s @ binds\<rparr>
     \<and> managed_of binds = ds \<and> list_all is_manage_call binds"
proof (induction ds arbitrary: s)
  case Nil
  show ?case by (intro exI[of _ "[]"]) simp
next
  case (Cons d ds)
  let ?s1 = "manage_device w d s"
  let ?c = "if bind_condition w s d then Device_grab d (device_grab w (trace s) d) else Device_ungrab d"
  have a: "?s1 = s\<lparr>heap := heap ?s1, trace := trace s @ [?c]\<rparr>"
    by (simp add: manage_device_eq)
  let ?s2 = "fold (manage_device w) ds ?s1"
  from Cons[of ?s1] obtain binds where
    b: "?s2 = ?s1\<lparr>heap := heap ?s2, trace := trace ?s1 @ binds\<rparr>"
    and b': "managed_of binds = ds" "list_all is_manage_call binds" by blast
  have "trace ?s1 = trace s @ [?c]" by (subst a) simp
  hence "?s2 = s\<lparr>heap := heap ?s2, trace := trace s @ (?c # binds)\<rparr>"
    by (subst b, subst (2) a) simp
  moreover have "managed_of (?c # binds) = d # ds" "list_all is_manage_call (?c # binds)"
    using b' by (simp_all add: is_manage_call_def)
  ultimately show ?case by (intro exI[of _ "?c # binds"]) simp
qed

lemma reload_eq:
  assumes "reload w s = Inr s'"
  shows "\<exists>s1 ld binds. load_configs w (free_configs s) = Inr s1
     \<and> s' = s\<lparr>configs := configs s1, keystate := (\<lambda>c. 0),
             heap := heap (fold (manage_device w) (devices s) s1),
             trace := trace s @ map (\<lambda>e. Free_kbd (kbd e)) (configs s) @ [Opendir] @ ld @ [Closedir]
                        @ binds @ releases (keystate s) 0\<rparr>
     \<and> list_all is_parse_call ld \<and> map kbd (configs s1) = rev (new_keyboards ld)
     \<and> list_all is_manage_call binds \<and> managed_of binds = devices s"
proof -
  from assms obtain s1 where l: "load_configs w (free_configs s) = Inr s1"
    and s': "s' = clear_vkbd (fold (manage_device w) (devices s1) s1)"
    by (auto simp: reload_def split: sum.splits)
  let ?s0 = "free_configs s"
  from load_configs_eq[OF l] obtain new ld where
    s1: "s1 = ?s0\<lparr>configs := rev new, trace := trace ?s0 @ [Opendir] @ ld @ [Closedir]\<rparr>"
    and nk: "new_keyboards ld = map kbd new" and pc: "list_all is_parse_call ld" by blast
  have s1': "s1 = s\<lparr>configs := rev new,
      trace := trace s @ map (\<lambda>e. Free_kbd (kbd e)) (configs s) @ [Opendir] @ ld @ [Closedir]\<rparr>"
    by (subst s1) (simp add: free_configs_eq)
  have d1: "devices s1 = devices s" "keystate s1 = keystate s" "configs s1 = rev new"
    "trace s1 = trace s @ map (\<lambda>e. Free_kbd (kbd e)) (configs s) @ [Opendir] @ ld @ [Closedir]"
    by (subst s1', simp)+
  let ?s2 = "fold (manage_device w) (devices s) s1"
  from manage_devices_eq[of w "devices s" s1] obtain binds where
    s2: "?s2 = s1\<lparr>heap := heap ?s2, trace := trace s1 @ binds\<rparr>"
    and mb: "managed_of binds = devices s" "list_all is_manage_call binds" by blast
  have k2: "keystate ?s2 = keystate s" "trace ?s2 = trace s1 @ binds"
    by (subst s2, simp add: d1)+
  have "s' = s\<lparr>configs := configs s1, keystate := (\<lambda>c. 0), heap := heap ?s2,
             trace := trace s @ map (\<lambda>e. Free_kbd (kbd e)) (configs s) @ [Opendir] @ ld @ [Closedir]
                        @ binds @ releases (keystate s) 0\<rparr>"
    unfolding s' d1(1) clear_vkbd_eq k2 d1(4)
    by (subst s2, subst (1) s1') (simp add: d1(3))
  moreover have "map kbd (configs s1) = rev (new_keyboards ld)" by (simp add: d1 nk rev_map)
  ultimately show ?thesis using l pc mb by blast
qed

text \<open>
  C4. A \<open>reload\<close> that returns has made its calls in this order: the release of the
  keyboard of every old registry entry, the calls of \<open>load_configs\<close> (the directory is
  opened, each configuration file is parsed and gets a keyboard, the directory is closed),
  one grab or ungrab for every device of the device table in table order, each decided by
  \<open>manage_device\<close> against the new registry, and at last the releases of the keys that
  were down. The device table is unchanged, the key state is all zero, and nothing but the
  registry, the key state, the associations of the devices and the trace changes.
  \<open>reload\<close> returns unless \<open>load_configs\<close> ends the process.
\<close>

theorem reload_frees_loads_rebinds_clears:
  "(reload w s = Inr s' \<longrightarrow>
      (\<exists>s1 ld binds. load_configs w (free_configs s) = Inr s1
        \<and> trace s' = trace s @ map (\<lambda>e. Free_kbd (kbd e)) (configs s) @ [Opendir] @ ld @ [Closedir]
                        @ binds @ releases (keystate s) 0
        \<and> list_all is_parse_call ld \<and> map kbd (configs s') = rev (new_keyboards ld)
        \<and> list_all is_manage_call binds \<and> managed_of binds = devices s
        \<and> heap s' = heap (fold (manage_device w) (devices s) s1)
        \<and> devices s' = devices s
        \<and> keystate s' = (\<lambda>c. 0)
        \<and> s' = s\<lparr>configs := configs s1, keystate := (\<lambda>c. 0), heap := heap s', trace := trace s'\<rparr>))
   \<and> (reload w s = Inl e) = (load_configs w (free_configs s) = Inl e)"
proof -
  have a: "reload w s = Inr s' \<longrightarrow>
      (\<exists>s1 ld binds. load_configs w (free_configs s) = Inr s1
        \<and> trace s' = trace s @ map (\<lambda>e. Free_kbd (kbd e)) (configs s) @ [Opendir] @ ld @ [Closedir]
                        @ binds @ releases (keystate s) 0
        \<and> list_all is_parse_call ld \<and> map kbd (configs s') = rev (new_keyboards ld)
        \<and> list_all is_manage_call binds \<and> managed_of binds = devices s
        \<and> heap s' = heap (fold (manage_device w) (devices s) s1)
        \<and> devices s' = devices s
        \<and> keystate s' = (\<lambda>c. 0)
        \<and> s' = s\<lparr>configs := configs s1, keystate := (\<lambda>c. 0), heap := heap s', trace := trace s'\<rparr>)"
  proof
    assume "reload w s = Inr s'"
    from reload_eq[OF this] obtain s1 ld binds where
      l: "load_configs w (free_configs s) = Inr s1"
      and e: "s' = s\<lparr>configs := configs s1, keystate := (\<lambda>c. 0),
             heap := heap (fold (manage_device w) (devices s) s1),
             trace := trace s @ map (\<lambda>e. Free_kbd (kbd e)) (configs s) @ [Opendir] @ ld @ [Closedir]
                        @ binds @ releases (keystate s) 0\<rparr>"
      and r: "list_all is_parse_call ld" "map kbd (configs s1) = rev (new_keyboards ld)"
        "list_all is_manage_call binds" "managed_of binds = devices s" by blast
    have f: "trace s' = trace s @ map (\<lambda>e. Free_kbd (kbd e)) (configs s) @ [Opendir] @ ld @ [Closedir]
                        @ binds @ releases (keystate s) 0"
      "configs s' = configs s1" "heap s' = heap (fold (manage_device w) (devices s) s1)"
      "devices s' = devices s" "keystate s' = (\<lambda>c. 0)"
      by (subst e, simp)+
    have g: "s' = s\<lparr>configs := configs s1, keystate := (\<lambda>c. 0), heap := heap s', trace := trace s'\<rparr>"
      unfolding f by (rule e)
    show "\<exists>s1 ld binds. load_configs w (free_configs s) = Inr s1
        \<and> trace s' = trace s @ map (\<lambda>e. Free_kbd (kbd e)) (configs s) @ [Opendir] @ ld @ [Closedir]
                        @ binds @ releases (keystate s) 0
        \<and> list_all is_parse_call ld \<and> map kbd (configs s') = rev (new_keyboards ld)
        \<and> list_all is_manage_call binds \<and> managed_of binds = devices s
        \<and> heap s' = heap (fold (manage_device w) (devices s) s1)
        \<and> devices s' = devices s
        \<and> keystate s' = (\<lambda>c. 0)
        \<and> s' = s\<lparr>configs := configs s1, keystate := (\<lambda>c. 0), heap := heap s', trace := trace s'\<rparr>"
      using l f r g by (intro exI[of _ s1] exI[of _ ld] exI[of _ binds]) simp
  qed
  have b: "(reload w s = Inl e) = (load_configs w (free_configs s) = Inl e)"
    by (auto simp: reload_def split: sum.splits)
  show ?thesis using a b by blast
qed

lemma demo_releases: "releases ((\<lambda>c. 0)(30 := 1)) 0 = [Vkbd_send_key 30 0]"
  unfolding releases_def by code_simp

lemma demo_reload: "reload demo_world demo_pressed = Inr demo_reloaded"
proof -
  have w: "CONFIG_DIR demo_world = ''/etc/keyd''" "readdir_all demo_world tr = Some demo_dir"
    "config_parse demo_world tr = demo_parse" "new_keyboard demo_world tr c = length tr"
    "device_grab demo_world tr d = 0" "config_check_match demo_world = demo_check_match" for tr c d
    by (simp_all add: demo_world_def)
  have p: "configs demo_pressed = demo_registry" "devices demo_pressed = [12]"
    "trace demo_pressed = trace demo_loaded" "length (trace demo_loaded) = 8"
    "heap demo_pressed = demo_heap(12 := (demo_heap 12)\<lparr>data := Some 4\<rparr>)"
    "keystate demo_pressed = (\<lambda>c. 0)(30 := 1)"
    by (simp_all add: demo_pressed_def demo_bound_def demo_loaded_def)
  define s1 where "s1 = demo_pressed\<lparr>configs :=
         [\<lparr>config = [(0x00030004, 1)], kbd = 17\<rparr>,
          \<lparr>config = [(0x046DC52B, 1), (0x00010002, 2)], kbd = 15\<rparr>,
          \<lparr>config = [(0x046DC52B, 1)], kbd = 13\<rparr>],
       trace := trace demo_loaded @
         [Free_kbd 6, Free_kbd 4, Free_kbd 2,
          Opendir, Config_parse ''/etc/keyd/a.conf'', New_keyboard 13,
          Config_parse ''/etc/keyd/b.conf'', New_keyboard 15,
          Config_parse ''/etc/keyd/c.conf'', New_keyboard 17, Closedir]\<rparr>"
  have l: "load_configs demo_world (free_configs demo_pressed) = Inr s1"
    by (simp add: free_configs_eq load_configs_def w p demo_dir_def demo_parse_def
        log_def Let_def demo_registry_def s1_def)
  have f: "configs s1 = [\<lparr>config = [(0x00030004, 1)], kbd = 17\<rparr>,
          \<lparr>config = [(0x046DC52B, 1), (0x00010002, 2)], kbd = 15\<rparr>,
          \<lparr>config = [(0x046DC52B, 1)], kbd = 13\<rparr>]"
    "heap s1 = demo_heap(12 := (demo_heap 12)\<lparr>data := Some 4\<rparr>)" "devices s1 = [12]"
    "keystate s1 = (\<lambda>c. 0)(30 := 1)"
    by (simp_all add: s1_def p)
  have i: "device_id (heap s1 12) = 0x00010002" by (simp add: f device_id_def demo_heap_def)
  have lk: "lookup_config_ent demo_world (configs s1) 0x00010002 =
      (2, Some \<lparr>config = [(0x046DC52B, 1), (0x00010002, 2)], kbd = 15\<rparr>)"
    by (simp add: f lookup_config_ent_def w demo_check_match_def)
  have c: "capabilities (heap s1 12) AND (CAP_MOUSE OR CAP_MOUSE_ABS) \<noteq> 0"
    by (simp add: f demo_heap_def CAP_MOUSE_def CAP_MOUSE_ABS_def)
  have b: "bind_condition demo_world s1 12" by (simp add: bind_condition_def i lk c)
  have m: "manage_device demo_world 12 s1 =
      s1\<lparr>heap := demo_heap(12 := (demo_heap 12)\<lparr>data := Some 15\<rparr>), trace := trace s1 @ [Device_grab 12 0]\<rparr>"
    by (simp add: manage_device_eq b w i lk) (simp add: f)
  show ?thesis
    by (simp add: reload_def l f m clear_vkbd_eq demo_releases)
       (simp add: s1_def demo_reloaded_def)
qed

text \<open>
  C4 on the concrete world: three keyboards are freed, three configurations loaded, the
  mouse 12 is bound to the new keyboard 15 and the key 30 is released.
\<close>

theorem reload_frees_loads_rebinds_clears_witness:
  "reload demo_world demo_pressed = Inr demo_reloaded
   \<and> devices demo_reloaded = devices demo_pressed
   \<and> keystate demo_reloaded = (\<lambda>c. 0)
   \<and> map kbd (configs demo_reloaded) = [17, 15, 13]
   \<and> data (heap demo_reloaded 12) = Some 15
   \<and> trace demo_reloaded = trace demo_pressed @
         [Free_kbd 6, Free_kbd 4, Free_kbd 2,
          Opendir, Config_parse ''/etc/keyd/a.conf'', New_keyboard 13,
          Config_parse ''/etc/keyd/b.conf'', New_keyboard 15,
          Config_parse ''/etc/keyd/c.conf'', New_keyboard 17, Closedir,
          Device_grab 12 0, Vkbd_send_key 30 0]"
proof -
  have "trace demo_pressed = trace demo_loaded" by (simp add: demo_pressed_def demo_bound_def)
  thus ?thesis
    using reload_frees_loads_rebinds_clears[of demo_world demo_pressed demo_reloaded, THEN conjunct1]
      demo_reload
    by (simp add: demo_reloaded_def)
qed

section \<open>The device table and the listener set\<close>

lemma bind_condition_devices [simp]:
  "bind_condition w (s\<lparr>devices := ds\<rparr>) dev = bind_condition w s dev"
  by (simp add: bind_condition_def)

text \<open>
  C10. With fewer than \<open>MAX_DEVICES\<close> devices in the table, \<open>add_device\<close> appends the
  device at the end of the table, which then holds at most \<open>MAX_DEVICES\<close> devices, and
  binds it with \<open>manage_device\<close>. With a full table the assertion fails and the process
  ends: nothing is rejected gracefully. \<open>add_listener\<close> on a full listener set writes the
  rejection line to the connection, closes it and leaves the set as it was; otherwise it
  appends the connection. (The assertion is taken to be compiled in.)
\<close>

theorem add_device_asserts_room:
  "(length (devices s) < MAX_DEVICES w \<longrightarrow>
      (\<exists>s'. add_device w dev s = Inr s'
         \<and> devices s' = devices s @ [dev] \<and> length (devices s') \<le> MAX_DEVICES w
         \<and> s' = manage_device w dev (s\<lparr>devices := devices s @ [dev]\<rparr>)
         \<and> trace s' = trace s @ [if bind_condition w s dev
                                   then Device_grab dev (device_grab w (trace s) dev)
                                   else Device_ungrab dev]))
   \<and> (MAX_DEVICES w \<le> length (devices s) \<longrightarrow> add_device w dev s = Inl Assertion_failed)
   \<and> (length (listeners s) = 32 \<longrightarrow>
        add_listener con s =
          s\<lparr>trace := trace s @ [Xwrite_str con (''Max listeners exceeded\<newline>'' @ [CHR 0x00]), Close con]\<rparr>)
   \<and> (length (listeners s) \<noteq> 32 \<longrightarrow>
        add_listener con s = s\<lparr>listeners := listeners s @ [con], trace := trace s @ [Setsockopt con]\<rparr>)"
proof -
  have a: "length (devices s) < MAX_DEVICES w \<longrightarrow>
      (\<exists>s'. add_device w dev s = Inr s'
         \<and> devices s' = devices s @ [dev] \<and> length (devices s') \<le> MAX_DEVICES w
         \<and> s' = manage_device w dev (s\<lparr>devices := devices s @ [dev]\<rparr>)
         \<and> trace s' = trace s @ [if bind_condition w s dev
                                   then Device_grab dev (device_grab w (trace s) dev)
                                   else Device_ungrab dev])"
    by (simp add: add_device_def manage_device_eq)
  have b: "MAX_DEVICES w \<le> length (devices s) \<longrightarrow> add_device w dev s = Inl Assertion_failed"
    by (simp add: add_device_def)
  have c: "length (listeners s) = 32 \<longrightarrow>
        add_listener con s =
          s\<lparr>trace := trace s @ [Xwrite_str con (''Max listeners exceeded\<newline>'' @ [CHR 0x00]), Close con]\<rparr>"
    by (simp add: add_listener_def log_def)
  have d: "length (listeners s) \<noteq> 32 \<longrightarrow>
        add_listener con s = s\<lparr>listeners := listeners s @ [con], trace := trace s @ [Setsockopt con]\<rparr>"
    by (simp add: add_listener_def log_def)
  show ?thesis using a b c d by blast
qed

text \<open>
  C10 on the concrete world, whose device table holds two devices.
\<close>

theorem add_device_asserts_room_witness:
  "add_device demo_world 12 demo_loaded =
     Inr (demo_loaded\<lparr>devices := [12], heap := demo_heap(12 := (demo_heap 12)\<lparr>data := Some 4\<rparr>),
            trace := trace demo_loaded @ [Device_grab 12 0]\<rparr>)
   \<and> add_device demo_world 13 demo_full_table = Inl Assertion_failed
   \<and> add_listener 60 demo_full_listeners =
       demo_full_listeners\<lparr>trace := trace demo_full_listeners @
          [Xwrite_str 60 (''Max listeners exceeded\<newline>'' @ [CHR 0x00]), Close 60]\<rparr>
   \<and> add_listener 60 demo_loaded =
       demo_loaded\<lparr>listeners := [60], trace := trace demo_loaded @ [Setsockopt 60]\<rparr>"
proof -
  have m: "MAX_DEVICES demo_world = 2" "device_grab demo_world tr d = 0" for tr d
    by (simp_all add: demo_world_def)
  have l1: "length (devices demo_loaded) < MAX_DEVICES demo_world"
    by (simp add: m demo_loaded_fields)
  have l2: "MAX_DEVICES demo_world \<le> length (devices demo_full_table)"
    by (simp add: m demo_full_table_def)
  have l3: "length (listeners demo_full_listeners) = 32" by (simp add: demo_full_listeners_def)
  have l4: "length (listeners demo_loaded) \<noteq> 32" by (simp add: demo_loaded_fields)
  let ?s = "demo_loaded\<lparr>devices := devices demo_loaded @ [12]\<rparr>"
  have bc: "bind_condition demo_world ?s 12" by (simp add: demo_bind_conditions demo_matchers)
  have lk: "lookup_config_ent demo_world (configs ?s) (device_id (heap ?s 12)) =
      (2, Some \<lparr>config = [(0x046DC52B, 1), (0x00010002, 2)], kbd = 4\<rparr>)"
    by (simp add: demo_loaded_fields demo_ids demo_lookups demo_matchers)
  have md: "manage_device demo_world 12 ?s =
      demo_loaded\<lparr>devices := [12], heap := demo_heap(12 := (demo_heap 12)\<lparr>data := Some 4\<rparr>),
            trace := trace demo_loaded @ [Device_grab 12 0]\<rparr>"
    unfolding manage_device_eq by (simp only: bc lk if_True) (simp add: m demo_loaded_fields)
  from add_device_asserts_room[of demo_loaded demo_world 12, THEN conjunct1, rule_format, OF l1]
  obtain s' where "add_device demo_world 12 demo_loaded = Inr s'" "s' = manage_device demo_world 12 ?s"
    by blast
  hence a: "add_device demo_world 12 demo_loaded =
     Inr (demo_loaded\<lparr>devices := [12], heap := demo_heap(12 := (demo_heap 12)\<lparr>data := Some 4\<rparr>),
            trace := trace demo_loaded @ [Device_grab 12 0]\<rparr>)"
    by (simp only: md)
  have b: "add_device demo_world 13 demo_full_table = Inl Assertion_failed"
    using add_device_asserts_room[of demo_full_table demo_world 13, THEN conjunct2, THEN conjunct1] l2
    by simp
  have c: "add_listener 60 demo_full_listeners =
       demo_full_listeners\<lparr>trace := trace demo_full_listeners @
          [Xwrite_str 60 (''Max listeners exceeded\<newline>'' @ [CHR 0x00]), Close 60]\<rparr>"
    using add_device_asserts_room[of demo_full_listeners _ _ 60, THEN conjunct2, THEN conjunct2, THEN conjunct1] l3
    by simp
  have d: "add_listener 60 demo_loaded =
       demo_loaded\<lparr>listeners := [60], trace := trace demo_loaded @ [Setsockopt 60]\<rparr>"
    using add_device_asserts_room[of demo_loaded _ _ 60, THEN conjunct2, THEN conjunct2, THEN conjunct2] l4
    by (simp add: demo_loaded_fields)
  show ?thesis using a b c d by simp
qed

section \<open>The event dispatcher: return values\<close>

lemma load_configs_loop_fatal:
  "load_configs_loop w ds s = Inl e \<Longrightarrow> \<exists>p. e = Die p"
proof (induction ds arbitrary: s)
  case Nil
  thus ?case by simp
next
  case (Cons d ds)
  thus ?case by (auto simp: Let_def split: if_splits option.splits)
qed

lemma reload_fatal: "reload w s = Inl e \<Longrightarrow> e = Exit (- 1) \<or> (\<exists>p. e = Die p)"
  by (auto simp: reload_def load_configs_def split: sum.splits option.splits
      dest: load_configs_loop_fatal)

lemma handle_client_fatal: "handle_client w con s = Inl e \<Longrightarrow> e = Exit (- 1) \<or> (\<exists>p. e = Die p)"
  by (auto simp: handle_client_def Let_def split: ipc_type.splits sum.splits prod.splits
      dest: reload_fatal)

lemma handle_client_returns:
  "msg_type (xread w (trace s) con) \<noteq> IPC_RELOAD \<Longrightarrow> \<exists>s'. handle_client w con s = Inr s'"
  by (auto simp: handle_client_def Let_def split: ipc_type.splits prod.splits)

text \<open>
  C9. The event handler returns 0 for every DEV_REMOVE event and every event of an
  unrecognised type, for every DEV_ADD event (it returns unless the device table is full,
  where the assertion ends the process), and for every FD_ACTIVITY event (it returns
  unless \<open>accept\<close> fails or a reload ends the process); so whatever \<open>timeleft\<close> was
  pending is not handed back. A device event of an unbound device returns the incoming
  \<open>timeleft\<close> and changes nothing.
\<close>

theorem event_handler_returns_zero_for_other_events:
  "event_handler w (EV_DEV_REMOVE dev) s = Inr (0, remove_device dev s)
   \<and> event_handler w EV_OTHER s = Inr (0, s)
   \<and> (name (heap s dev) = VKBD_NAME \<longrightarrow> event_handler w (EV_DEV_ADD dev) s = Inr (0, s))
   \<and> (name (heap s dev) \<noteq> VKBD_NAME \<and> length (devices s) < MAX_DEVICES w \<longrightarrow>
        (\<exists>s'. event_handler w (EV_DEV_ADD dev) s = Inr (0, s')))
   \<and> (name (heap s dev) \<noteq> VKBD_NAME \<and> MAX_DEVICES w \<le> length (devices s) \<longrightarrow>
        event_handler w (EV_DEV_ADD dev) s = Inl Assertion_failed)
   \<and> (f \<noteq> ipcfd s \<longrightarrow> event_handler w (EV_FD_ACTIVITY f) s = Inr (0, s))
   \<and> (f = ipcfd s \<and> 0 \<le> accept w (trace s)
        \<and> msg_type (xread w (trace s @ [Accept (accept w (trace s))]) (accept w (trace s))) \<noteq> IPC_RELOAD \<longrightarrow>
        (\<exists>s'. event_handler w (EV_FD_ACTIVITY f) s = Inr (0, s')))
   \<and> (event_handler w (EV_FD_ACTIVITY f) s = Inr (t, s') \<longrightarrow> t = 0)
   \<and> (event_handler w (EV_FD_ACTIVITY f) s = Inl e \<longrightarrow>
        f = ipcfd s \<and> (e = Exit (- 1) \<or> (\<exists>p. e = Die p)))
   \<and> (data (heap s dev) = None \<longrightarrow>
        event_handler w (EV_DEV_EVENT dev devev timeleft) s = Inr (timeleft, s))"
proof -
  have a: "event_handler w (EV_DEV_REMOVE dev) s = Inr (0, remove_device dev s)"
    "event_handler w EV_OTHER s = Inr (0, s)"
    by (simp_all add: event_handler_def)
  have b: "name (heap s dev) = VKBD_NAME \<longrightarrow> event_handler w (EV_DEV_ADD dev) s = Inr (0, s)"
    by (simp add: event_handler_def)
  have c: "name (heap s dev) \<noteq> VKBD_NAME \<and> length (devices s) < MAX_DEVICES w \<longrightarrow>
        (\<exists>s'. event_handler w (EV_DEV_ADD dev) s = Inr (0, s'))"
    by (simp add: event_handler_def add_device_def)
  have d: "name (heap s dev) \<noteq> VKBD_NAME \<and> MAX_DEVICES w \<le> length (devices s) \<longrightarrow>
        event_handler w (EV_DEV_ADD dev) s = Inl Assertion_failed"
    by (simp add: event_handler_def add_device_def)
  have e: "f \<noteq> ipcfd s \<longrightarrow> event_handler w (EV_FD_ACTIVITY f) s = Inr (0, s)"
    by (simp add: event_handler_def)
  have g: "f = ipcfd s \<and> 0 \<le> accept w (trace s)
        \<and> msg_type (xread w (trace s @ [Accept (accept w (trace s))]) (accept w (trace s))) \<noteq> IPC_RELOAD \<longrightarrow>
        (\<exists>s'. event_handler w (EV_FD_ACTIVITY f) s = Inr (0, s'))"
  proof
    let ?con = "accept w (trace s)"
    assume h: "f = ipcfd s \<and> 0 \<le> ?con
        \<and> msg_type (xread w (trace s @ [Accept ?con]) ?con) \<noteq> IPC_RELOAD"
    hence "msg_type (xread w (trace (log (Accept ?con) s)) ?con) \<noteq> IPC_RELOAD" by (simp add: log_def)
    from handle_client_returns[OF this] obtain s' where "handle_client w ?con (log (Accept ?con) s) = Inr s'"
      by blast
    with h show "\<exists>s'. event_handler w (EV_FD_ACTIVITY f) s = Inr (0, s')"
      by (simp add: event_handler_def Let_def)
  qed
  have i: "event_handler w (EV_FD_ACTIVITY f) s = Inr (t, s') \<longrightarrow> t = 0"
    by (auto simp: event_handler_def Let_def split: if_splits sum.splits)
  have j: "event_handler w (EV_FD_ACTIVITY f) s = Inl e \<longrightarrow>
        f = ipcfd s \<and> (e = Exit (- 1) \<or> (\<exists>p. e = Die p))"
    by (auto simp: event_handler_def Let_def split: if_splits sum.splits dest: handle_client_fatal)
  have k: "data (heap s dev) = None \<longrightarrow>
        event_handler w (EV_DEV_EVENT dev devev timeleft) s = Inr (timeleft, s)"
    by (simp add: event_handler_def)
  show ?thesis using a b c d e g i j k by blast
qed

text \<open>
  C9 on the concrete world.
\<close>

theorem event_handler_returns_zero_for_other_events_witness:
  "event_handler demo_world (EV_DEV_ADD 99) demo_loaded = Inr (0, demo_loaded)
   \<and> (\<exists>s'. event_handler demo_world (EV_DEV_ADD 12) demo_loaded = Inr (0, s'))
   \<and> event_handler demo_world (EV_DEV_ADD 13) demo_full_table = Inl Assertion_failed
   \<and> event_handler demo_world (EV_FD_ACTIVITY 5) demo_loaded = Inr (0, demo_loaded)
   \<and> (\<exists>s'. event_handler demo_world (EV_FD_ACTIVITY 3) demo_loaded = Inr (0, s'))
   \<and> event_handler accept_fails_world (EV_FD_ACTIVITY 3) demo_loaded = Inl (Exit (- 1))
   \<and> event_handler demo_world (EV_DEV_EVENT 11 (DEV_KEY 30 1) 250) demo_loaded = Inr (250, demo_loaded)"
proof -
  have n: "name (heap demo_loaded 99) = VKBD_NAME" "name (heap demo_loaded 12) \<noteq> VKBD_NAME"
    "name (heap demo_full_table 13) \<noteq> VKBD_NAME" "data (heap demo_loaded 11) = None"
    by (simp_all add: demo_loaded_fields demo_full_table_def demo_heap_def VKBD_NAME_def)
  have m: "MAX_DEVICES demo_world = 2" "accept demo_world tr = 9" "accept accept_fails_world tr = - 1"
    "msg_type (xread demo_world tr c) = IPC_BIND" for tr c
    by (simp_all add: demo_world_def accept_fails_world_def)
  have i: "ipcfd demo_loaded = 3" by (simp add: demo_loaded_def demo_state_def)
  have a: "event_handler demo_world (EV_DEV_ADD 99) demo_loaded = Inr (0, demo_loaded)"
    using event_handler_returns_zero_for_other_events[where w = demo_world and s = demo_loaded and dev = 99]
      n(1) by blast
  have b: "\<exists>s'. event_handler demo_world (EV_DEV_ADD 12) demo_loaded = Inr (0, s')"
    using event_handler_returns_zero_for_other_events[where w = demo_world and s = demo_loaded and dev = 12]
      n(2) by (simp add: m demo_loaded_fields)
  have c: "event_handler demo_world (EV_DEV_ADD 13) demo_full_table = Inl Assertion_failed"
    using event_handler_returns_zero_for_other_events[where w = demo_world and s = demo_full_table and dev = 13]
      n(3) by (simp add: m demo_full_table_def)
  have d: "event_handler demo_world (EV_FD_ACTIVITY 5) demo_loaded = Inr (0, demo_loaded)"
    using event_handler_returns_zero_for_other_events[where w = demo_world and s = demo_loaded and f = 5]
    by (simp add: i)
  have e: "\<exists>s'. event_handler demo_world (EV_FD_ACTIVITY 3) demo_loaded = Inr (0, s')"
    using event_handler_returns_zero_for_other_events[where w = demo_world and s = demo_loaded and f = 3]
    by (simp add: i m)
  have g0: "event_handler accept_fails_world (EV_FD_ACTIVITY 3) demo_loaded = Inl (Exit (- 1))"
    by (simp add: event_handler_def i m)
  have g: "(3::int) = ipcfd demo_loaded \<and> (Exit (- 1) = Exit (- 1) \<or> (\<exists>p. Exit (- 1) = Die p))"
    using event_handler_returns_zero_for_other_events[where w = accept_fails_world and s = demo_loaded
        and f = 3 and e = "Exit (- 1)"] g0 by blast
  have h: "event_handler demo_world (EV_DEV_EVENT 11 (DEV_KEY 30 1) 250) demo_loaded = Inr (250, demo_loaded)"
    using event_handler_returns_zero_for_other_events[where w = demo_world and s = demo_loaded and dev = 11]
      n(4) by blast
  show ?thesis using a b c d e g0 h by blast
qed

section \<open>The event dispatcher: the last active keyboard\<close>

lemma key_events_of_append: "key_events_of (xs @ ys) = key_events_of xs @ key_events_of ys"
  by (induction xs rule: key_events_of.induct) auto

lemma key_events_of_none:
  "(\<And>c. c \<in> set xs \<Longrightarrow> \<forall>k a b. c \<noteq> Kbd_process_key_event k a b) \<Longrightarrow> key_events_of xs = []"
  by (induction xs rule: key_events_of.induct) auto

lemma key_events_of_callbacks: "list_all is_callback_call xs \<Longrightarrow> key_events_of xs = []"
  by (rule key_events_of_none) (auto simp: list_all_iff is_callback_call_def split: call.splits)

lemma key_events_of_parse: "list_all is_parse_call xs \<Longrightarrow> key_events_of xs = []"
  by (rule key_events_of_none) (auto simp: list_all_iff is_parse_call_def split: call.splits)

lemma key_events_of_manage: "list_all is_manage_call xs \<Longrightarrow> key_events_of xs = []"
  by (rule key_events_of_none) (auto simp: list_all_iff is_manage_call_def split: call.splits)

lemma key_events_of_releases: "key_events_of (releases ks i) = []"
  by (rule key_events_of_none) (auto simp: releases_def)

lemma key_events_of_frees: "key_events_of (map (\<lambda>e. Free_kbd (kbd e)) cs) = []"
  by (rule key_events_of_none) auto

lemma key_events_of_evals:
  "evs = map (\<lambda>(k, e, r). Kbd_eval k e r) (evals_of evs) \<Longrightarrow> key_events_of evs = []"
proof (rule key_events_of_none)
  fix c assume e: "evs = map (\<lambda>(k, e, r). Kbd_eval k e r) (evals_of evs)" and "c \<in> set evs"
  hence "c \<in> set (map (\<lambda>(k, e, r). Kbd_eval k e r) (evals_of evs))" by simp
  thus "\<forall>k a b. c \<noteq> Kbd_process_key_event k a b" by auto
qed

lemma same_kbd_view_manage_device: "same_kbd_view s (manage_device w dev s)"
  by (simp add: same_kbd_view_def manage_device_eq key_events_of_append)

lemma same_kbd_view_add_device: "add_device w dev s = Inr s' \<Longrightarrow> same_kbd_view s s'"
  using same_kbd_view_manage_device[of "s\<lparr>devices := devices s @ [dev]\<rparr>" w dev]
  by (auto simp: add_device_def same_kbd_view_def split: if_splits)

lemma same_kbd_view_reload:
  assumes "reload w s = Inr s'"
  shows "same_kbd_view s s'"
proof -
  from reload_eq[OF assms] obtain s1 ld binds where
    e: "s' = s\<lparr>configs := configs s1, keystate := (\<lambda>c. 0),
             heap := heap (fold (manage_device w) (devices s) s1),
             trace := trace s @ map (\<lambda>e. Free_kbd (kbd e)) (configs s) @ [Opendir] @ ld @ [Closedir]
                        @ binds @ releases (keystate s) 0\<rparr>"
    and r: "list_all is_parse_call ld" "list_all is_manage_call binds" by blast
  show ?thesis
    unfolding same_kbd_view_def
    by (subst (1 2) e)
       (simp add: key_events_of_append key_events_of_frees key_events_of_parse[OF r(1)]
          key_events_of_manage[OF r(2)] key_events_of_releases)
qed

lemma same_kbd_view_bind_loop:
  assumes "bind_loop w expr cs succ s = (succ', s')"
  shows "same_kbd_view s s'"
proof -
  from bind_loop_eq[OF assms] obtain evs where
    e: "s' = s\<lparr>errstr := errstr s', trace := trace s @ evs\<rparr>"
    and m: "evs = map (\<lambda>(k, e, r). Kbd_eval k e r) (evals_of evs)" by blast
  have "last_kbd s' = last_kbd s" "trace s' = trace s @ evs" by (subst e, simp)+
  thus ?thesis by (simp add: same_kbd_view_def key_events_of_append key_events_of_evals[OF m])
qed

lemma same_kbd_view_log:
  "\<forall>k a b. c \<noteq> Kbd_process_key_event k a b \<Longrightarrow> same_kbd_view s (log c s)"
  by (cases c) (simp_all add: same_kbd_view_def log_def key_events_of_append)

lemma same_kbd_view_trans: "same_kbd_view s s1 \<Longrightarrow> same_kbd_view s1 s2 \<Longrightarrow> same_kbd_view s s2"
  by (simp add: same_kbd_view_def)

lemma same_kbd_view_replies:
  "same_kbd_view s (send_success con s)" "same_kbd_view s (send_fail w con str s)"
  "same_kbd_view s (add_listener con s)"
  by (simp_all add: same_kbd_view_def send_success_def send_fail_def add_listener_def log_def
      key_events_of_append)

lemma same_kbd_view_handle_client:
  assumes "handle_client w con s = Inr s'"
  shows "same_kbd_view s s'"
proof -
  let ?msg = "xread w (trace s) con"
  let ?s0 = "log (Xread con ?msg) s"
  have s0: "same_kbd_view s ?s0" by (rule same_kbd_view_log) simp
  have "same_kbd_view ?s0 s'"
  proof (cases "msg_type ?msg")
    case IPC_RELOAD
    with assms obtain s1 where r: "reload w ?s0 = Inr s1" and s': "s' = send_success con s1"
      by (auto simp: handle_client_def Let_def split: sum.splits)
    show ?thesis unfolding s'
      by (rule same_kbd_view_trans[OF same_kbd_view_reload[OF r] same_kbd_view_replies(1)])
  next
    case IPC_LAYER_LISTEN
    with assms have "s' = add_listener con ?s0" by (simp add: handle_client_def Let_def)
    thus ?thesis by (simp add: same_kbd_view_replies)
  next
    case IPC_BIND
    obtain succ s1 where b: "bind_loop w (msg_data ?msg) (configs ?s0) False ?s0 = (succ, s1)"
      by (cases "bind_loop w (msg_data ?msg) (configs ?s0) False ?s0")
    with IPC_BIND assms have s': "s' = (if succ then send_success con s1 else send_fail w con (errstr s1) s1)"
      by (simp add: handle_client_def Let_def)
    have "same_kbd_view s1 s'" unfolding s' by (simp add: same_kbd_view_replies)
    with same_kbd_view_bind_loop[OF b] show ?thesis by (rule same_kbd_view_trans)
  next
    case IPC_SUCCESS
    with assms have "s' = send_fail w con ''Unknown command'' ?s0" by (simp add: handle_client_def Let_def)
    thus ?thesis by (simp add: same_kbd_view_replies)
  next
    case IPC_FAIL
    with assms have "s' = send_fail w con ''Unknown command'' ?s0" by (simp add: handle_client_def Let_def)
    thus ?thesis by (simp add: same_kbd_view_replies)
  next
    case IPC_OTHER
    with assms have "s' = send_fail w con ''Unknown command'' ?s0" by (simp add: handle_client_def Let_def)
    thus ?thesis by (simp add: same_kbd_view_replies)
  qed
  with s0 show ?thesis by (rule same_kbd_view_trans)
qed

lemma call_kbd_process_key_event_view:
  "last_kbd (snd (call_kbd_process_key_event w k code pressed s)) = last_kbd s"
  "key_events_of (trace (snd (call_kbd_process_key_event w k code pressed s))) =
     key_events_of (trace s) @ [(k, code, pressed)]"
proof -
  let ?s' = "snd (call_kbd_process_key_event w k code pressed s)"
  from call_kbd_process_key_event_eq[of w k code pressed s] obtain ext where
    e: "?s' = s\<lparr>keystate := keystate ?s', listeners := listeners ?s',
         trace := trace s @ Kbd_process_key_event k code pressed # ext\<rparr>"
    and c: "list_all is_callback_call ext" by blast
  have "last_kbd ?s' = last_kbd s" "trace ?s' = trace s @ Kbd_process_key_event k code pressed # ext"
    by (subst e, simp)+
  thus "last_kbd ?s' = last_kbd s"
    "key_events_of (trace ?s') = key_events_of (trace s) @ [(k, code, pressed)]"
    by (simp_all add: key_events_of_append key_events_of_callbacks[OF c])
qed

lemma event_handler_step:
  assumes "event_handler w ev s = Inr (t, s')"
  shows "last_kbd s' =
      (case ev of
         EV_DEV_EVENT dev devev timeleft \<Rightarrow> (case data (heap s dev) of None \<Rightarrow> last_kbd s | Some k \<Rightarrow> Some k)
       | _ \<Rightarrow> last_kbd s)
    \<and> (\<exists>new. key_events_of (trace s') = key_events_of (trace s) @ new
          \<and> (\<forall>e \<in> set new. last_kbd s' = Some (fst e)))"
proof (cases ev)
  case EV_TIMEOUT
  show ?thesis
  proof (cases "last_kbd s")
    case None
    with EV_TIMEOUT assms have "s' = s" by (simp add: event_handler_def)
    thus ?thesis using EV_TIMEOUT by simp
  next
    case (Some k)
    with EV_TIMEOUT assms have "s' = snd (call_kbd_process_key_event w k 0 0 s)"
      by (auto simp: event_handler_def)
    thus ?thesis using EV_TIMEOUT Some by (simp add: call_kbd_process_key_event_view)
  qed
next
  case (EV_DEV_EVENT dev devev timeleft)
  show ?thesis
  proof (cases "data (heap s dev)")
    case None
    with EV_DEV_EVENT assms have "s' = s" by (simp add: event_handler_def)
    thus ?thesis using EV_DEV_EVENT None by simp
  next
    case (Some k)
    let ?s0 = "s\<lparr>last_kbd := Some k\<rparr>"
    let ?b = "KEYD_EXTERNAL_MOUSE_BUTTON w"
    have v: "last_kbd s' = Some k \<and> (\<exists>new. key_events_of (trace s') = key_events_of (trace s) @ new
          \<and> (\<forall>e \<in> set new. fst e = k))"
    proof (cases devev)
      case (DEV_KEY code pressed)
      with EV_DEV_EVENT Some assms have "s' = snd (call_kbd_process_key_event w k code pressed ?s0)"
        by (auto simp: event_handler_def)
      thus ?thesis by (simp add: call_kbd_process_key_event_view)
    next
      case (DEV_MOUSE_MOVE x y)
      with EV_DEV_EVENT Some assms have "s' = log (Vkbd_mouse_move x y) ?s0"
        by (simp add: event_handler_def)
      thus ?thesis by (simp add: log_def key_events_of_append)
    next
      case (DEV_MOUSE_MOVE_ABS x y)
      with EV_DEV_EVENT Some assms have "s' = log (Vkbd_mouse_move_abs x y) ?s0"
        by (simp add: event_handler_def)
      thus ?thesis by (simp add: log_def key_events_of_append)
    next
      case (DEV_MOUSE_SCROLL x y)
      let ?s1 = "snd (call_kbd_process_key_event w k ?b 1 ?s0)"
      let ?s2 = "snd (call_kbd_process_key_event w k ?b 0 ?s1)"
      from DEV_MOUSE_SCROLL EV_DEV_EVENT Some assms have "s' = log (Vkbd_mouse_scroll x y) ?s2"
        by (simp add: event_handler_def Let_def)
      thus ?thesis by (simp add: log_def key_events_of_append call_kbd_process_key_event_view)
    next
      case DEV_OTHER
      with EV_DEV_EVENT Some assms have "s' = ?s0" by (simp add: event_handler_def)
      thus ?thesis by simp
    qed
    thus ?thesis using EV_DEV_EVENT Some by auto
  qed
next
  case (EV_DEV_ADD dev)
  have "same_kbd_view s s'"
  proof (cases "name (heap s dev) \<noteq> VKBD_NAME")
    case True
    with EV_DEV_ADD assms have "add_device w dev s = Inr s'"
      by (auto simp: event_handler_def split: sum.splits)
    thus ?thesis by (rule same_kbd_view_add_device)
  next
    case False
    with EV_DEV_ADD assms have "s' = s" by (simp add: event_handler_def)
    thus ?thesis by (simp add: same_kbd_view_def)
  qed
  thus ?thesis using EV_DEV_ADD by (simp add: same_kbd_view_def)
next
  case (EV_DEV_REMOVE dev)
  with assms have "s' = remove_device dev s" by (simp add: event_handler_def)
  thus ?thesis using EV_DEV_REMOVE by (simp add: remove_device_def)
next
  case (EV_FD_ACTIVITY f)
  have "same_kbd_view s s'"
  proof (cases "f = ipcfd s")
    case True
    let ?con = "accept w (trace s)"
    from True EV_FD_ACTIVITY assms have "handle_client w ?con (log (Accept ?con) s) = Inr s'"
      by (auto simp: event_handler_def Let_def split: if_splits sum.splits)
    from same_kbd_view_handle_client[OF this] have "same_kbd_view (log (Accept ?con) s) s'" .
    moreover have "same_kbd_view s (log (Accept ?con) s)" by (rule same_kbd_view_log) simp
    ultimately show ?thesis by (rule same_kbd_view_trans[rotated])
  next
    case False
    with EV_FD_ACTIVITY assms have "s' = s" by (simp add: event_handler_def)
    thus ?thesis by (simp add: same_kbd_view_def)
  qed
  thus ?thesis using EV_FD_ACTIVITY by (simp add: same_kbd_view_def)
next
  case EV_OTHER
  with assms have "s' = s" by (simp add: event_handler_def)
  thus ?thesis using EV_OTHER by simp
qed

lemma dispatch_last_kbd:
  "dispatch w evs s = Inr s' \<Longrightarrow>
     last_kbd s' = (if bound_kbds w evs s = [] then last_kbd s else Some (last (bound_kbds w evs s)))"
proof (induction evs arbitrary: s)
  case Nil
  thus ?case by simp
next
  case (Cons ev evs)
  from Cons.prems obtain t s1 where h: "event_handler w ev s = Inr (t, s1)"
    and d: "dispatch w evs s1 = Inr s'"
    by (auto split: sum.splits)
  note ih = Cons.IH[OF d]
  note st = event_handler_step[OF h, THEN conjunct1]
  show ?case
  proof (cases "bound_kbds w evs s1 = []")
    case False
    thus ?thesis using ih h by simp
  next
    case True
    hence "last_kbd s' = last_kbd s1" using ih by simp
    thus ?thesis using True h st by (auto split: event.splits option.splits)
  qed
qed

lemma demo_steps:
  "event_handler demo_world (EV_DEV_ADD 14) demo_loaded = Inr (0, demo_added_kbd)"
  "event_handler demo_world (EV_DEV_ADD 12) demo_added_kbd = Inr (0, demo_added_mouse)"
  "event_handler demo_world (EV_DEV_EVENT 14 (DEV_KEY 30 1) 0) demo_added_mouse = Inr (0, demo_keyed)"
  "event_handler demo_world (EV_DEV_EVENT 12 (DEV_MOUSE_MOVE 1 1) 0) demo_keyed = Inr (0, demo_moved)"
proof -
  have w: "MAX_DEVICES demo_world = 2" "device_grab demo_world tr d = 0"
    "config_check_match demo_world = demo_check_match"
    "kbd_process_key_event demo_world tr k c p = ([Emit_key c p], 0)" for tr d k c p
    by (simp_all add: demo_world_def)
  have ids: "device_id (demo_heap 14) = 0x00030004" "device_id (demo_heap 12) = 0x00010002"
    by (simp_all add: device_id_def demo_heap_def)
  have lk: "lookup_config_ent demo_world demo_registry 0x00030004 =
        (1, Some \<lparr>config = [(0x00030004, 1)], kbd = 6\<rparr>)"
      "lookup_config_ent demo_world demo_registry 0x00010002 =
        (2, Some \<lparr>config = [(0x046DC52B, 1), (0x00010002, 2)], kbd = 4\<rparr>)"
    by (simp_all add: lookup_config_ent_def w demo_registry_def demo_check_match_def)
  have caps: "capabilities (demo_heap 14) AND CAP_KEYBOARD \<noteq> 0"
    "capabilities (demo_heap 12) AND (CAP_MOUSE OR CAP_MOUSE_ABS) \<noteq> 0"
    by (simp_all add: demo_heap_def CAP_KEYBOARD_def CAP_MOUSE_def CAP_MOUSE_ABS_def)
  have nm: "name (demo_heap 14) \<noteq> VKBD_NAME" "name (demo_heap 12) \<noteq> VKBD_NAME"
    by (simp_all add: demo_heap_def VKBD_NAME_def)
  show "event_handler demo_world (EV_DEV_ADD 14) demo_loaded = Inr (0, demo_added_kbd)"
    by (simp add: event_handler_def add_device_def manage_device_def demo_loaded_fields nm w ids lk
        caps set_data_def log_def demo_added_kbd_def)
  have f1: "heap demo_added_kbd = demo_heap(14 := (demo_heap 14)\<lparr>data := Some 6\<rparr>)"
    "devices demo_added_kbd = [14]" "configs demo_added_kbd = demo_registry"
    "trace demo_added_kbd = trace demo_loaded @ [Device_grab 14 0]"
    by (simp_all add: demo_added_kbd_def demo_loaded_fields)
  show "event_handler demo_world (EV_DEV_ADD 12) demo_added_kbd = Inr (0, demo_added_mouse)"
    by (simp add: event_handler_def add_device_def manage_device_def f1 nm w ids lk
        caps set_data_def log_def demo_added_mouse_def)
  have f2: "heap demo_added_mouse =
      demo_heap(14 := (demo_heap 14)\<lparr>data := Some 6\<rparr>, 12 := (demo_heap 12)\<lparr>data := Some 4\<rparr>)"
    "trace demo_added_mouse = trace demo_loaded @ [Device_grab 14 0, Device_grab 12 0]"
    "keystate demo_added_mouse = (\<lambda>c. 0)"
    by (simp_all add: demo_added_mouse_def demo_added_kbd_def demo_loaded_def demo_state_def)
  show "event_handler demo_world (EV_DEV_EVENT 14 (DEV_KEY 30 1) 0) demo_added_mouse = Inr (0, demo_keyed)"
    by (simp add: event_handler_def f2 call_kbd_process_key_event_def w send_key_def log_def
        demo_keyed_def)
  have f3: "heap demo_keyed = heap demo_added_mouse" by (simp add: demo_keyed_def)
  show "event_handler demo_world (EV_DEV_EVENT 12 (DEV_MOUSE_MOVE 1 1) 0) demo_keyed = Inr (0, demo_moved)"
    by (simp add: event_handler_def f3 f2 log_def) (simp add: demo_keyed_def demo_moved_def)
qed

lemma demo_dispatch: "dispatch demo_world demo_events demo_loaded = Inr demo_moved"
  by (simp add: demo_events_def demo_steps)

lemma demo_moved_fields:
  "last_kbd demo_moved = Some 4"
  "trace demo_moved = trace demo_loaded @
         [Device_grab 14 0, Device_grab 12 0, Kbd_process_key_event 6 30 1, Vkbd_send_key 30 1,
          Vkbd_mouse_move 1 1]"
  "key_events_of (trace demo_loaded) = []"
  by (simp_all add: demo_moved_def demo_loaded_def)

text \<open>
  C5 as stated fails: after a key press on the keyboard device 14 (bound to the keyboard
  6) and a movement of the mouse 12 (bound to the keyboard 4), \<open>last_kbd\<close> is the keyboard
  4, which is not null and is not the keyboard most recently passed a non-tick key event,
  the keyboard 6.
\<close>

theorem last_kbd_follows_mouse_counterexample:
  "dispatch demo_world demo_events demo_loaded = Inr demo_moved
   \<and> last_kbd demo_moved = Some 4
   \<and> last_key_kbd (trace demo_moved) = Some 6"
proof -
  have "last_key_kbd (trace demo_moved) = Some 6"
    by (simp add: demo_moved_fields last_key_kbd_def key_events_of_append)
  thus ?thesis using demo_dispatch by (simp add: demo_moved_fields)
qed

text \<open>
  C5, amended. Across every sequence of dispatched events, \<open>last_kbd\<close> is its initial value
  (null when the daemon starts) or the keyboard that was bound to the device of the most
  recent device event on a bound device, whatever the type of that event (a key, a mouse
  movement, a scroll or another). Every key event an event hands to a keyboard goes to the
  keyboard \<open>last_kbd\<close> holds after the event. A KEY event of a bound device sets
  \<open>last_kbd\<close> to the bound keyboard, hands it the key and returns its delay; a TIMEOUT
  hands a tick to the keyboard \<open>last_kbd\<close> holds and returns its delay, and returns 0
  when \<open>last_kbd\<close> is null.
\<close>

theorem last_kbd_is_keyboard_of_last_bound_device_event:
  "(dispatch w evs s = Inr s' \<longrightarrow>
      last_kbd s' = (if bound_kbds w evs s = [] then last_kbd s else Some (last (bound_kbds w evs s))))
   \<and> (event_handler w ev s = Inr (t, s1) \<longrightarrow>
        (\<exists>new. key_events_of (trace s1) = key_events_of (trace s) @ new
           \<and> (\<forall>e \<in> set new. last_kbd s1 = Some (fst e))))
   \<and> (data (heap s dev) = Some k \<longrightarrow>
        (\<exists>t2 s2. event_handler w (EV_DEV_EVENT dev devev timeleft) s = Inr (t2, s2) \<and> last_kbd s2 = Some k))
   \<and> (data (heap s dev) = Some k \<longrightarrow>
        (\<exists>s2. event_handler w (EV_DEV_EVENT dev (DEV_KEY code pressed) timeleft) s =
                 Inr (snd (kbd_process_key_event w (trace s) k code pressed), s2)
           \<and> last_kbd s2 = Some k
           \<and> key_events_of (trace s2) = key_events_of (trace s) @ [(k, code, pressed)]))
   \<and> (last_kbd s = Some k \<longrightarrow>
        (\<exists>s2. event_handler w EV_TIMEOUT s = Inr (snd (kbd_process_key_event w (trace s) k 0 0), s2)
           \<and> last_kbd s2 = Some k
           \<and> key_events_of (trace s2) = key_events_of (trace s) @ [(k, 0, 0)]))
   \<and> (last_kbd s = None \<longrightarrow> event_handler w EV_TIMEOUT s = Inr (0, s))"
proof -
  have a: "dispatch w evs s = Inr s' \<longrightarrow>
      last_kbd s' = (if bound_kbds w evs s = [] then last_kbd s else Some (last (bound_kbds w evs s)))"
    using dispatch_last_kbd by blast
  have b: "event_handler w ev s = Inr (t, s1) \<longrightarrow>
        (\<exists>new. key_events_of (trace s1) = key_events_of (trace s) @ new
           \<and> (\<forall>e \<in> set new. last_kbd s1 = Some (fst e)))"
    using event_handler_step by blast
  have ret: "fst (call_kbd_process_key_event w k c p s0) = snd (kbd_process_key_event w (trace s0) k c p)"
    for c p s0
    by (simp add: call_kbd_process_key_event_def split: prod.splits)
  have c: "data (heap s dev) = Some k \<longrightarrow>
        (\<exists>t2 s2. event_handler w (EV_DEV_EVENT dev devev timeleft) s = Inr (t2, s2) \<and> last_kbd s2 = Some k)"
  proof
    assume d: "data (heap s dev) = Some k"
    hence "\<exists>r. event_handler w (EV_DEV_EVENT dev devev timeleft) s = Inr r"
      by (cases devev) (simp_all add: event_handler_def Let_def)
    then obtain t2 s2 where h: "event_handler w (EV_DEV_EVENT dev devev timeleft) s = Inr (t2, s2)"
      by (metis surj_pair)
    from event_handler_step[OF h] d have "last_kbd s2 = Some k" by simp
    with h show "\<exists>t2 s2. event_handler w (EV_DEV_EVENT dev devev timeleft) s = Inr (t2, s2) \<and> last_kbd s2 = Some k"
      by blast
  qed
  have d: "data (heap s dev) = Some k \<longrightarrow>
        (\<exists>s2. event_handler w (EV_DEV_EVENT dev (DEV_KEY code pressed) timeleft) s =
                 Inr (snd (kbd_process_key_event w (trace s) k code pressed), s2)
           \<and> last_kbd s2 = Some k
           \<and> key_events_of (trace s2) = key_events_of (trace s) @ [(k, code, pressed)])"
  proof
    assume d: "data (heap s dev) = Some k"
    let ?s0 = "s\<lparr>last_kbd := Some k\<rparr>"
    let ?r = "call_kbd_process_key_event w k code pressed ?s0"
    have "event_handler w (EV_DEV_EVENT dev (DEV_KEY code pressed) timeleft) s = Inr (fst ?r, snd ?r)"
      using d by (simp add: event_handler_def)
    moreover have "fst ?r = snd (kbd_process_key_event w (trace s) k code pressed)"
      by (simp add: ret)
    moreover have "last_kbd (snd ?r) = Some k"
      "key_events_of (trace (snd ?r)) = key_events_of (trace s) @ [(k, code, pressed)]"
      by (simp_all add: call_kbd_process_key_event_view)
    ultimately show "\<exists>s2. event_handler w (EV_DEV_EVENT dev (DEV_KEY code pressed) timeleft) s =
                 Inr (snd (kbd_process_key_event w (trace s) k code pressed), s2)
           \<and> last_kbd s2 = Some k
           \<and> key_events_of (trace s2) = key_events_of (trace s) @ [(k, code, pressed)]"
      by (intro exI[of _ "snd ?r"]) simp
  qed
  have e: "last_kbd s = Some k \<longrightarrow>
        (\<exists>s2. event_handler w EV_TIMEOUT s = Inr (snd (kbd_process_key_event w (trace s) k 0 0), s2)
           \<and> last_kbd s2 = Some k
           \<and> key_events_of (trace s2) = key_events_of (trace s) @ [(k, 0, 0)])"
  proof
    assume l: "last_kbd s = Some k"
    let ?r = "call_kbd_process_key_event w k 0 0 s"
    have "event_handler w EV_TIMEOUT s = Inr (fst ?r, snd ?r)"
      using l by (simp add: event_handler_def)
    moreover have "fst ?r = snd (kbd_process_key_event w (trace s) k 0 0)" by (simp add: ret)
    moreover have "last_kbd (snd ?r) = Some k"
      "key_events_of (trace (snd ?r)) = key_events_of (trace s) @ [(k, 0, 0)]"
      using l by (simp_all add: call_kbd_process_key_event_view)
    ultimately show "\<exists>s2. event_handler w EV_TIMEOUT s = Inr (snd (kbd_process_key_event w (trace s) k 0 0), s2)
           \<and> last_kbd s2 = Some k
           \<and> key_events_of (trace s2) = key_events_of (trace s) @ [(k, 0, 0)]"
      by (intro exI[of _ "snd ?r"]) simp
  qed
  have f: "last_kbd s = None \<longrightarrow> event_handler w EV_TIMEOUT s = Inr (0, s)"
    by (simp add: event_handler_def)
  show ?thesis using a b c d e f by blast
qed

text \<open>
  C5, amended, on the concrete run: after the movement of the mouse the TIMEOUT ticks the
  keyboard 4.
\<close>

theorem last_kbd_is_keyboard_of_last_bound_device_event_witness:
  "dispatch demo_world demo_events demo_loaded = Inr demo_moved
   \<and> bound_kbds demo_world demo_events demo_loaded = [6, 4]
   \<and> last_kbd demo_moved = Some 4
   \<and> event_handler demo_world (EV_DEV_EVENT 14 (DEV_KEY 30 1) 0) demo_added_mouse = Inr (0, demo_keyed)
   \<and> last_kbd demo_keyed = Some 6
   \<and> (\<exists>s2. event_handler demo_world EV_TIMEOUT demo_moved = Inr (0, s2) \<and> last_kbd s2 = Some 4
         \<and> key_events_of (trace s2) = [(6, 30, 1), (4, 0, 0)])
   \<and> event_handler demo_world EV_TIMEOUT demo_loaded = Inr (0, demo_loaded)"
proof -
  note T = last_kbd_is_keyboard_of_last_bound_device_event
  have k: "kbd_process_key_event demo_world tr k c p = ([Emit_key c p], 0)" for tr k c p
    by (simp add: demo_world_def)
  have hp: "data (heap demo_added_mouse 14) = Some 6" "data (heap demo_keyed 12) = Some 4"
    "data (heap demo_loaded 14) = None" "data (heap demo_added_kbd 12) = None"
    by (simp_all add: demo_keyed_def demo_added_mouse_def demo_added_kbd_def demo_loaded_fields demo_heap_def)
  have bk: "bound_kbds demo_world demo_events demo_loaded = [6, 4]"
    by (simp add: demo_events_def demo_steps hp)
  have a: "last_kbd demo_moved = Some 4"
    using T[where w = demo_world and evs = demo_events and s = demo_loaded and s' = demo_moved,
        THEN conjunct1, rule_format, OF demo_dispatch]
    by (simp add: bk)
  have b: "last_kbd demo_keyed = Some 6"
    using T[where w = demo_world and s = demo_added_mouse and dev = 14 and k = 6 and code = 30
        and pressed = 1 and timeleft = 0,
        THEN conjunct2, THEN conjunct2, THEN conjunct2, THEN conjunct1, rule_format, OF hp(1)]
    by (auto simp: demo_steps)
  have c: "\<exists>s2. event_handler demo_world EV_TIMEOUT demo_moved = Inr (0, s2) \<and> last_kbd s2 = Some 4
         \<and> key_events_of (trace s2) = [(6, 30, 1), (4, 0, 0)]"
    using T[where w = demo_world and s = demo_moved and k = 4,
        THEN conjunct2, THEN conjunct2, THEN conjunct2, THEN conjunct2, THEN conjunct1, rule_format,
        OF demo_moved_fields(1)]
    by (simp add: k demo_moved_fields key_events_of_append)
  have d: "event_handler demo_world EV_TIMEOUT demo_loaded = Inr (0, demo_loaded)"
    using T[where w = demo_world and s = demo_loaded,
        THEN conjunct2, THEN conjunct2, THEN conjunct2, THEN conjunct2, THEN conjunct2, rule_format,
        OF demo_loaded_fields(5)] .
  show ?thesis using demo_dispatch bk a demo_steps(3) b c d by simp
qed

end
